theory Spec2Isabelle
  imports Complex_Main "HOL-Library.List_Lexorder" "HOL-Library.Char_ord"
begin

section \<open>Data model of the gap analyzer\<close>

text \<open>
  The Go program is embedded as follows.  A \<^verbatim>\<open>float64\<close> is a \<^typ>\<open>real\<close>: the arithmetic
  is exact, so the development is about the comparisons, the control flow and the
  accumulators of the analysis, not about binary rounding.  A Go \<^verbatim>\<open>int\<close> or \<^verbatim>\<open>int64\<close> is
  an \<^typ>\<open>int\<close> (the counters are bounded by the number of bars).  A \<^verbatim>\<open>string\<close> is a
  \<^typ>\<open>string\<close>, a slice is a list, a Go map is a partial function, and the zero value of a
  struct is the record with \<open>0\<close>, \<open>[]\<close> and \<open>Map.empty\<close> in its fields.

  The fields of \<^verbatim>\<open>polygonBar\<close> are \<^verbatim>\<open>T O H L C V\<close> in the source; they carry the prefix
  \<open>bar\<close> here because \<open>O\<close> is relation composition in HOL.  Likewise \<^verbatim>\<open>min\<close> and \<^verbatim>\<open>max\<close> of
  \<^verbatim>\<open>gapBin\<close> are \<open>bin_min\<close> and \<open>bin_max\<close>.
\<close>

record polygonBar =
  barT :: int
  barO :: real
  barH :: real
  barL :: real
  barC :: real
  barV :: real

record GapPoint =
  Date :: string
  GapPct :: real
  DailyReturnPct :: real
  Direction :: int
  SameDir :: int
  Filled :: int
  Bin :: string
  Open :: real
  Close :: real
  PrevClose :: real
  DayOfWeek :: string
  Ret15mPct :: real
  FilledBy0945 :: int

record BinStat =
  Label :: string
  Count :: int
  ContinuationRate :: real
  GapFillRate :: real
  FadeAvg :: real
  FollowAvg :: real
  Recommendation :: string

record SideStat =
  Count :: int
  ContinuationRate :: real
  FadeAvg :: real
  FollowAvg :: real

record DowStat =
  Count :: int
  ContinuationRate :: real
  FadeAvg :: real
  FollowAvg :: real

record Summary =
  Sessions :: int
  ContinuationRate :: real
  GapUps :: int
  GapDowns :: int
  MeanGap :: real
  MaxGapUp :: real
  MaxGapDown :: real
  FadeAvg :: real
  FollowAvg :: real
  BestStrategy :: string
  ExpectedReturn :: real

record Summary15 =
  Sessions :: int
  ContinuationRate :: real
  FadeAvg :: real
  FollowAvg :: real
  BestStrategy :: string
  ExpectedReturn :: real
  GapFillBy0945Rate :: real

record BinStat15 =
  Label :: string
  Count :: int
  ContinuationRate :: real
  GapFillBy0945Rate :: real
  FadeAvg :: real
  FollowAvg :: real
  Recommendation :: string

record AnalyzeResponse =
  Success :: bool
  Error :: string
  Ticker :: string
  Years :: int
  MinGap :: real
  Data :: "GapPoint list"
  Summary :: Summary
  Bins :: "BinStat list"
  ByDOW :: "string \<rightharpoonup> DowStat"
  UpSide :: SideStat
  DownSide :: SideStat
  CumDates :: "string list"
  CumFade :: "real list"
  CumFollow :: "real list"
  Summary15 :: Summary15
  Bins15 :: "BinStat15 list"
  ByDOW15 :: "string \<rightharpoonup> DowStat"
  UpSide15 :: SideStat
  DownSide15 :: SideStat

record gapBin =
  bin_min :: real
  bin_max :: real
  lab :: string

text \<open>
  The functions of Go's \<^verbatim>\<open>time\<close> and \<^verbatim>\<open>fmt\<close> packages that the analysis calls are not part
  of the repository; they are a parameter of the model.  For a millisecond epoch \<open>t\<close>,
  \<open>nyDate t\<close> is \<^verbatim>\<open>toNY(time.UnixMilli(t)).Format("2006-01-02")\<close>, \<open>nyWeekday t\<close> is
  \<^verbatim>\<open>toNY(time.UnixMilli(t)).Weekday().String()[:3]\<close>, \<open>nyHour\<close> and \<open>nyMinute\<close> are
  \<^verbatim>\<open>.Hour()\<close> and \<^verbatim>\<open>.Minute()\<close> of the same New York time, and \<open>sprintf1 x\<close> is
  \<^verbatim>\<open>fmt.Sprintf("%.1f", x)\<close>.
\<close>

record golib =
  nyDate :: "int \<Rightarrow> string"
  nyWeekday :: "int \<Rightarrow> string"
  nyHour :: "int \<Rightarrow> int"
  nyMinute :: "int \<Rightarrow> int"
  sprintf1 :: "real \<Rightarrow> string"

section \<open>Helpers\<close>

definition sign :: "real \<Rightarrow> int" where
  "sign x = (if x > 0 then 1 else if x < 0 then - 1 else 0)"

text \<open>\<^verbatim>\<open>math.Round\<close>: to the nearest integer, halves away from zero.\<close>

definition math_Round :: "real \<Rightarrow> real" where
  "math_Round x = (if x < 0 then - of_int \<lfloor>- x + 1 / 2\<rfloor> else of_int \<lfloor>x + 1 / 2\<rfloor>)"

definition round1 :: "real \<Rightarrow> real" where
  "round1 f = math_Round (f * 10) / 10"

definition round2 :: "real \<Rightarrow> real" where
  "round2 f = math_Round (f * 100) / 100"

definition round3 :: "real \<Rightarrow> real" where
  "round3 f = math_Round (f * 1000) / 1000"

definition rate :: "int \<Rightarrow> int \<Rightarrow> real" where
  "rate n d = (if d = 0 then 0 else round1 (of_int n / of_int d * 100))"

definition avg :: "real \<Rightarrow> int \<Rightarrow> real" where
  "avg s n = (if n = 0 then 0 else round3 (s / of_int n))"

definition dateNY :: "golib \<Rightarrow> int \<Rightarrow> string" where
  "dateNY G tms = nyDate G tms"

definition weekdayNY :: "golib \<Rightarrow> int \<Rightarrow> string" where
  "weekdayNY G tms = nyWeekday G tms"

text \<open>\<^verbatim>\<open>Add(24 * time.Hour)\<close> moves the instant by 86400000 milliseconds.\<close>

definition sessionDateNYFromDaily :: "golib \<Rightarrow> int \<Rightarrow> string" where
  "sessionDateNYFromDaily G tms = nyDate G (tms + 86400000)"

definition sessionWeekdayNYFromDaily :: "golib \<Rightarrow> int \<Rightarrow> string" where
  "sessionWeekdayNYFromDaily G tms = nyWeekday G (tms + 86400000)"

text \<open>The en dash of the bin labels, as the three bytes of its UTF-8 encoding.\<close>

definition endash :: string where
  "endash = [CHR 0xE2, CHR 0x80, CHR 0x93]"

definition defaultBins :: "golib \<Rightarrow> real \<Rightarrow> gapBin list" where
  "defaultBins G minGap =
     (let start = (if minGap < 0.1 then 0.1 else minGap) in
      [\<lparr>bin_min = start, bin_max = 0.5, lab = sprintf1 G start @ endash @ ''0.5%''\<rparr>,
       \<lparr>bin_min = 0.5, bin_max = 1.0, lab = ''0.5'' @ endash @ ''1.0%''\<rparr>,
       \<lparr>bin_min = 1.0, bin_max = 1.5, lab = ''1.0'' @ endash @ ''1.5%''\<rparr>,
       \<lparr>bin_min = 1.5, bin_max = 99.0, lab = ''>1.5%''\<rparr>])"

fun labelFor :: "real \<Rightarrow> gapBin list \<Rightarrow> string" where
  "labelFor absGap [] = ''other''"
| "labelFor absGap (b # bs) =
     (if absGap \<ge> bin_min b \<and> absGap < bin_max b then lab b else labelFor absGap bs)"

section \<open>The daily pass\<close>

text \<open>
  The accumulator structs \<^verbatim>\<open>agg15\<close> (of \<^verbatim>\<open>analyzeFirst15\<close>) and \<^verbatim>\<open>agg\<close> (of \<^verbatim>\<open>analyzeDaily\<close>)
  share field names; the fields of \<open>agg15\<close> are always written with their qualified names.
\<close>

record agg15 =
  count :: int
  cont :: int
  filledBy0945 :: int
  sumFade :: real
  sumFollow :: real

record agg =
  count :: int
  cont :: int
  filled :: int
  sumFade :: real
  sumFollow :: real

definition agg0 :: agg where
  "agg0 = \<lparr>count = 0, cont = 0, filled = 0, sumFade = 0, sumFollow = 0\<rparr>"

text \<open>The local variables of \<^verbatim>\<open>analyzeDaily\<close> that its loop updates.\<close>

record dailyState =
  binAgg :: "string \<rightharpoonup> agg"
  upAgg :: agg
  downAgg :: agg
  dowAgg :: "string \<rightharpoonup> agg"
  points :: "GapPoint list"
  fadeSum :: real
  followSum :: real
  contCount :: int
  upCount :: int
  downCount :: int
  meanAbsGap :: real
  maxGapUp :: real
  maxGapDown :: real
  cumFade :: real
  cumFollow :: real
  cumDates :: "string list"
  cumFadeArr :: "real list"
  cumFollowArr :: "real list"

text \<open>
  One iteration of the loop of \<^verbatim>\<open>analyzeDaily\<close>, for the pair \<open>prev = daily[i-1]\<close>,
  \<open>day = daily[i]\<close>.  The two \<^verbatim>\<open>continue\<close> statements leave the state as it is.
  \<open>dateOf\<close> and \<open>dowOf\<close> are the helpers that name the session's date and weekday.
\<close>

definition dailyBody ::
  "(int \<Rightarrow> string) \<Rightarrow> (int \<Rightarrow> string) \<Rightarrow> real \<Rightarrow> gapBin list \<Rightarrow>
   polygonBar \<Rightarrow> polygonBar \<Rightarrow> dailyState \<Rightarrow> dailyState" where
  "dailyBody dateOf dowOf minGap bins prev day s =
     (let prevClose = barC prev; openp = barO day; closep = barC day in
      if prevClose \<le> 0 \<or> openp \<le> 0 then s
      else
        let gapPct = (openp - prevClose) / prevClose * 100 in
        if \<bar>gapPct\<bar> < minGap then s
        else
          let dr = (closep - openp) / openp * 100;
              dir = sign gapPct;
              same = (if sign dr = dir \<and> dir \<noteq> 0 \<and> dr \<noteq> 0 then 1 else 0 :: int);
              fill = (if (dir = 1 \<and> barL day \<le> prevClose) \<or> (dir = - 1 \<and> barH day \<ge> prevClose)
                      then 1 else 0 :: int);
              absGap = \<bar>gapPct\<bar>;
              bin = labelFor absGap bins;
              dow = dowOf (barT day);
              followRet = of_int dir * dr;
              fadeRet = - of_int dir * dr;
              sessDate = dateOf (barT day);
              cumFollow' = cumFollow s + followRet;
              cumFade' = cumFade s + fadeRet
          in s\<lparr>
               upCount := (if dir = 1 then upCount s + 1 else upCount s),
               downCount := (if dir = 1 then downCount s
                             else if dir = - 1 then downCount s + 1 else downCount s),
               contCount := (if same = 1 then contCount s + 1 else contCount s),
               meanAbsGap := meanAbsGap s + absGap,
               maxGapUp := (if gapPct > maxGapUp s then gapPct else maxGapUp s),
               maxGapDown := (if gapPct < maxGapDown s then gapPct else maxGapDown s),
               followSum := followSum s + followRet,
               fadeSum := fadeSum s + fadeRet,
               cumDates := cumDates s @ [sessDate],
               cumFollow := cumFollow',
               cumFade := cumFade',
               cumFollowArr := cumFollowArr s @ [round3 cumFollow'],
               cumFadeArr := cumFadeArr s @ [round3 cumFade'],
               binAgg :=
                 (case binAgg s bin of
                    None \<Rightarrow> binAgg s
                  | Some ba \<Rightarrow>
                      (binAgg s)(bin \<mapsto> ba\<lparr>
                        count := count ba + 1,
                        sumFollow := sumFollow ba + followRet,
                        sumFade := sumFade ba + fadeRet,
                        cont := (if same = 1 then cont ba + 1 else cont ba),
                        filled := (if fill = 1 then filled ba + 1 else filled ba)\<rparr>)),
               upAgg :=
                 (if dir = 1
                  then (upAgg s)\<lparr>
                    count := count (upAgg s) + 1,
                    sumFollow := sumFollow (upAgg s) + followRet,
                    sumFade := sumFade (upAgg s) + fadeRet,
                    cont := (if same = 1 then cont (upAgg s) + 1 else cont (upAgg s))\<rparr>
                  else upAgg s),
               downAgg :=
                 (if dir = 1 then downAgg s
                  else (downAgg s)\<lparr>
                    count := count (downAgg s) + 1,
                    sumFollow := sumFollow (downAgg s) + followRet,
                    sumFade := sumFade (downAgg s) + fadeRet,
                    cont := (if same = 1 then cont (downAgg s) + 1 else cont (downAgg s))\<rparr>),
               dowAgg :=
                 (case dowAgg s dow of
                    None \<Rightarrow> dowAgg s
                  | Some da \<Rightarrow>
                      (dowAgg s)(dow \<mapsto> da\<lparr>
                        count := count da + 1,
                        sumFollow := sumFollow da + followRet,
                        sumFade := sumFade da + fadeRet,
                        cont := (if same = 1 then cont da + 1 else cont da)\<rparr>)),
               points := points s @
                 [\<lparr>Date = sessDate, GapPct = round3 gapPct, DailyReturnPct = round3 dr,
                   Direction = dir, SameDir = same, Filled = fill, Bin = bin,
                   Open = openp, Close = closep, PrevClose = prevClose, DayOfWeek = dow,
                   Ret15mPct = 0, FilledBy0945 = 0\<rparr>]\<rparr>)"

text \<open>
  The loop \<^verbatim>\<open>for i := 1; i < len(daily); i++\<close>: it walks the consecutive pairs of the
  slice, \<open>prev\<close> being the bar before the first bar of the remaining list.
\<close>

fun dailyLoop ::
  "(int \<Rightarrow> string) \<Rightarrow> (int \<Rightarrow> string) \<Rightarrow> real \<Rightarrow> gapBin list \<Rightarrow>
   polygonBar \<Rightarrow> polygonBar list \<Rightarrow> dailyState \<Rightarrow> dailyState" where
  "dailyLoop dateOf dowOf minGap bins prev [] s = s"
| "dailyLoop dateOf dowOf minGap bins prev (day # rest) s =
     dailyLoop dateOf dowOf minGap bins day rest
       (dailyBody dateOf dowOf minGap bins prev day s)"

text \<open>The state before the loop: every accumulator is zero, every bin and weekday has its entry.\<close>

definition dailyInit :: "gapBin list \<Rightarrow> dailyState" where
  "dailyInit bins =
     \<lparr>binAgg = fold (\<lambda>b m. m(lab b \<mapsto> agg0)) bins Map.empty,
      upAgg = agg0,
      downAgg = agg0,
      dowAgg = [''Mon'' \<mapsto> agg0, ''Tue'' \<mapsto> agg0, ''Wed'' \<mapsto> agg0,
                ''Thu'' \<mapsto> agg0, ''Fri'' \<mapsto> agg0],
      points = [], fadeSum = 0, followSum = 0, contCount = 0, upCount = 0, downCount = 0,
      meanAbsGap = 0, maxGapUp = 0, maxGapDown = 0, cumFade = 0, cumFollow = 0,
      cumDates = [], cumFadeArr = [], cumFollowArr = []\<rparr>"

text \<open>Zero values of the result structs.\<close>

definition Summary0 :: Summary where
  "Summary0 = \<lparr>Summary.Sessions = 0, Summary.ContinuationRate = 0, GapUps = 0, GapDowns = 0,
     MeanGap = 0, MaxGapUp = 0, MaxGapDown = 0, Summary.FadeAvg = 0, Summary.FollowAvg = 0,
     Summary.BestStrategy = [], Summary.ExpectedReturn = 0\<rparr>"

definition SideStat0 :: SideStat where
  "SideStat0 = \<lparr>SideStat.Count = 0, SideStat.ContinuationRate = 0,
     SideStat.FadeAvg = 0, SideStat.FollowAvg = 0\<rparr>"

definition Summary15_0 :: Summary15 where
  "Summary15_0 = \<lparr>Summary15.Sessions = 0, Summary15.ContinuationRate = 0,
     Summary15.FadeAvg = 0, Summary15.FollowAvg = 0, Summary15.BestStrategy = [],
     Summary15.ExpectedReturn = 0, Summary15.GapFillBy0945Rate = 0\<rparr>"

text \<open>One iteration of the loop that builds \<^verbatim>\<open>outBins\<close>.\<close>

definition binStatOf :: "(string \<rightharpoonup> agg) \<Rightarrow> gapBin \<Rightarrow> BinStat" where
  "binStatOf bagg b =
     (let empty = \<lparr>BinStat.Label = lab b, BinStat.Count = 0, BinStat.ContinuationRate = 0,
                    GapFillRate = 0, BinStat.FadeAvg = 0, BinStat.FollowAvg = 0,
                    BinStat.Recommendation = []\<rparr>
      in case bagg (lab b) of
           None \<Rightarrow> empty
         | Some ba \<Rightarrow>
             if count ba = 0 then empty
             else
               let cr = of_int (cont ba) / of_int (count ba) * 100;
                   gr = of_int (filled ba) / of_int (count ba) * 100;
                   fa = sumFade ba / of_int (count ba);
                   fo = sumFollow ba / of_int (count ba);
                   rec = (if cr > 60 then ''FOLLOW'' else if cr < 40 then ''FADE'' else ''NEUTRAL'')
               in \<lparr>BinStat.Label = lab b, BinStat.Count = count ba,
                    BinStat.ContinuationRate = round1 cr, GapFillRate = round1 gr,
                    BinStat.FadeAvg = round3 fa, BinStat.FollowAvg = round3 fo,
                    BinStat.Recommendation = rec\<rparr>)"

definition dowStatOf :: "agg \<Rightarrow> DowStat" where
  "dowStatOf v =
     \<lparr>DowStat.Count = count v, DowStat.ContinuationRate = rate (cont v) (count v),
      DowStat.FadeAvg = avg (sumFade v) (count v),
      DowStat.FollowAvg = avg (sumFollow v) (count v)\<rparr>"

text \<open>
  The body shared by \<^verbatim>\<open>analyzeDaily\<close> (the version with the intraday pass) and
  \<^verbatim>\<open>analyzeGaps\<close> of \<^verbatim>\<open>main.go\<close>: the two differ only in the helpers that name the date and
  the weekday of a bar, which are the parameters \<open>dateOf\<close> and \<open>dowOf\<close>.  The call
  \<^verbatim>\<open>sort.Slice(outBins, func(i, j int) bool { return i < j })\<close> compares positions, not
  elements: \<^verbatim>\<open>less(j, j-1)\<close> is false for every \<open>j\<close>, so the insertion sort that the library
  runs on a slice of four elements swaps nothing, and the slice stays in the order of
  \<^verbatim>\<open>bins\<close>.
\<close>

definition analyzeWith ::
  "(int \<Rightarrow> string) \<Rightarrow> (int \<Rightarrow> string) \<Rightarrow> golib \<Rightarrow>
   polygonBar list \<Rightarrow> real \<Rightarrow> int \<Rightarrow> string \<Rightarrow> AnalyzeResponse" where
  "analyzeWith dateOf dowOf G daily minGap years ticker =
     (let resp = \<lparr>Success = True, Error = [], Ticker = ticker, Years = years, MinGap = minGap,
                   Data = [], Summary = Summary0, Bins = [], ByDOW = Map.empty,
                   UpSide = SideStat0, DownSide = SideStat0,
                   CumDates = [], CumFade = [], CumFollow = [],
                   Summary15 = Summary15_0, Bins15 = [], ByDOW15 = Map.empty,
                   UpSide15 = SideStat0, DownSide15 = SideStat0\<rparr>
      in if length daily < 2 then resp\<lparr>Success := False, Error := ''not enough data''\<rparr>
         else
           let bins = defaultBins G minGap;
               s = dailyLoop dateOf dowOf minGap bins (hd daily) (tl daily) (dailyInit bins);
               total = int (length (points s));
               contRate = (if total > 0 then of_int (contCount s) / of_int total * 100 else 0);
               fadeAvg = (if total > 0 then fadeSum s / of_int total else 0);
               followAvg = (if total > 0 then followSum s / of_int total else 0);
               best = (if followAvg > fadeAvg then ''FOLLOW''
                       else if fadeAvg > followAvg then ''FADE'' else ''NEUTRAL'');
               exp = (if followAvg > fadeAvg then followAvg
                      else if fadeAvg > followAvg then fadeAvg else 0);
               meanAbsGapPct = (if total > 0 then meanAbsGap s / of_int total else 0)
           in resp\<lparr>
                Data := points s,
                CumDates := cumDates s,
                CumFade := cumFadeArr s,
                CumFollow := cumFollowArr s,
                Summary :=
                  \<lparr>Summary.Sessions = total, Summary.ContinuationRate = round1 contRate,
                   GapUps = upCount s, GapDowns = downCount s,
                   MeanGap = round2 meanAbsGapPct,
                   MaxGapUp = round2 (maxGapUp s), MaxGapDown = round2 (maxGapDown s),
                   Summary.FadeAvg = round3 fadeAvg, Summary.FollowAvg = round3 followAvg,
                   Summary.BestStrategy = best, Summary.ExpectedReturn = round3 exp\<rparr>,
                Bins := map (binStatOf (binAgg s)) bins,
                UpSide :=
                  \<lparr>SideStat.Count = count (upAgg s),
                   SideStat.ContinuationRate = rate (cont (upAgg s)) (count (upAgg s)),
                   SideStat.FadeAvg = avg (sumFade (upAgg s)) (count (upAgg s)),
                   SideStat.FollowAvg = avg (sumFollow (upAgg s)) (count (upAgg s))\<rparr>,
                DownSide :=
                  \<lparr>SideStat.Count = count (downAgg s),
                   SideStat.ContinuationRate = rate (cont (downAgg s)) (count (downAgg s)),
                   SideStat.FadeAvg = avg (sumFade (downAgg s)) (count (downAgg s)),
                   SideStat.FollowAvg = avg (sumFollow (downAgg s)) (count (downAgg s))\<rparr>,
                ByDOW := (\<lambda>k. map_option dowStatOf (dowAgg s k))\<rparr>)"

text \<open>
  \<^verbatim>\<open>analyzeDaily\<close> returns the response and the slice of points (the same slice as
  \<^verbatim>\<open>resp.Data\<close>; \<^verbatim>\<open>nil\<close> when there are fewer than two bars).
\<close>

definition analyzeDaily ::
  "golib \<Rightarrow> polygonBar list \<Rightarrow> real \<Rightarrow> int \<Rightarrow> string \<Rightarrow> AnalyzeResponse \<times> GapPoint list" where
  "analyzeDaily G daily minGap years ticker =
     (let resp = analyzeWith (sessionDateNYFromDaily G) (sessionWeekdayNYFromDaily G) G
                   daily minGap years ticker
      in (resp, Data resp))"

definition analyzeGaps ::
  "golib \<Rightarrow> polygonBar list \<Rightarrow> real \<Rightarrow> int \<Rightarrow> string \<Rightarrow> AnalyzeResponse" where
  "analyzeGaps G bars minGap years ticker =
     analyzeWith (dateNY G) (weekdayNY G) G bars minGap years ticker"

section \<open>The intraday pass\<close>

definition agg15_0 :: agg15 where
  "agg15_0 = \<lparr>agg15.count = 0, agg15.cont = 0, filledBy0945 = 0,
              agg15.sumFade = 0, agg15.sumFollow = 0\<rparr>"

text \<open>The local variables of \<^verbatim>\<open>analyzeFirst15\<close> that its loop updates.\<close>

record state15 =
  binAgg15 :: "string \<rightharpoonup> agg15"
  upAgg15 :: agg15
  downAgg15 :: agg15
  dowAgg15 :: "string \<rightharpoonup> agg15"
  fadeSum15 :: real
  followSum15 :: real
  contCount15 :: int
  filledBy0945Count :: int
  sessions15 :: int

text \<open>
  One iteration of the loop of \<^verbatim>\<open>analyzeFirst15\<close> for the point \<open>p = &pts[i]\<close>: it returns
  the point as it stands after the iteration and the updated locals.  Reading a key that a
  Go map does not have yields the nil slice.  Each \<^verbatim>\<open>continue\<close> returns the point and the
  locals as they are.
\<close>

definition body15 ::
  "golib \<Rightarrow> (string \<rightharpoonup> polygonBar list) \<Rightarrow> GapPoint \<Rightarrow> state15 \<Rightarrow> GapPoint \<times> state15" where
  "body15 G minutesByDate p s =
     (let mins = (case minutesByDate (Date p) of None \<Rightarrow> [] | Some bs \<Rightarrow> bs) in
      if length mins = 0 then (p, s)
      else
        let rth0 = filter (\<lambda>b. nyHour G (barT b) = 9 \<and> nyMinute G (barT b) \<ge> 30
                                \<and> nyMinute G (barT b) \<le> 44) mins;
            rth = (if length rth0 = 0
                   then filter (\<lambda>b. nyHour G (barT b) = 9 \<and> nyMinute G (barT b) \<le> 45) mins
                   else rth0)
        in
        if length rth = 0 then (p, s)
        else
          let found = (case find (\<lambda>b. nyMinute G (barT b) = 30) rth of
                         None \<Rightarrow> 0 | Some b \<Rightarrow> barO b);
              open0930 = (if found = 0 then Open p else found)
          in
          if open0930 \<le> 0 then (p, s)
          else
            let close0945 = barC (last rth);
                filled0945 =
                  (if Direction p = 1
                   then (if list_ex (\<lambda>b. barL b \<le> PrevClose p) rth then 1 else 0)
                   else if Direction p = - 1
                   then (if list_ex (\<lambda>b. barH b \<ge> PrevClose p) rth then 1 else 0)
                   else 0 :: int);
                ret15 = (close0945 - open0930) / open0930 * 100;
                cont15 = (if sign ret15 = Direction p \<and> Direction p \<noteq> 0 \<and> ret15 \<noteq> 0
                          then 1 else 0 :: int);
                followRet15 = of_int (Direction p) * ret15;
                fadeRet15 = - of_int (Direction p) * ret15;
                ba = (case binAgg15 s (Bin p) of None \<Rightarrow> agg15_0 | Some a \<Rightarrow> a);
                da = (case dowAgg15 s (DayOfWeek p) of None \<Rightarrow> agg15_0 | Some a \<Rightarrow> a)
            in (p\<lparr>Ret15mPct := round3 ret15, FilledBy0945 := filled0945\<rparr>,
                s\<lparr>followSum15 := followSum15 s + followRet15,
                  fadeSum15 := fadeSum15 s + fadeRet15,
                  contCount15 := contCount15 s + cont15,
                  filledBy0945Count := filledBy0945Count s + filled0945,
                  sessions15 := sessions15 s + 1,
                  binAgg15 := (binAgg15 s)(Bin p \<mapsto> ba\<lparr>
                    agg15.count := agg15.count ba + 1,
                    agg15.sumFollow := agg15.sumFollow ba + followRet15,
                    agg15.sumFade := agg15.sumFade ba + fadeRet15,
                    agg15.cont := (if cont15 = 1 then agg15.cont ba + 1 else agg15.cont ba),
                    filledBy0945 := (if filled0945 = 1 then filledBy0945 ba + 1
                                     else filledBy0945 ba)\<rparr>),
                  upAgg15 :=
                    (if Direction p = 1
                     then (upAgg15 s)\<lparr>
                       agg15.count := agg15.count (upAgg15 s) + 1,
                       agg15.sumFollow := agg15.sumFollow (upAgg15 s) + followRet15,
                       agg15.sumFade := agg15.sumFade (upAgg15 s) + fadeRet15,
                       agg15.cont := (if cont15 = 1 then agg15.cont (upAgg15 s) + 1
                                      else agg15.cont (upAgg15 s)),
                       filledBy0945 := (if filled0945 = 1 then filledBy0945 (upAgg15 s) + 1
                                        else filledBy0945 (upAgg15 s))\<rparr>
                     else upAgg15 s),
                  downAgg15 :=
                    (if Direction p = 1 then downAgg15 s
                     else (downAgg15 s)\<lparr>
                       agg15.count := agg15.count (downAgg15 s) + 1,
                       agg15.sumFollow := agg15.sumFollow (downAgg15 s) + followRet15,
                       agg15.sumFade := agg15.sumFade (downAgg15 s) + fadeRet15,
                       agg15.cont := (if cont15 = 1 then agg15.cont (downAgg15 s) + 1
                                      else agg15.cont (downAgg15 s)),
                       filledBy0945 := (if filled0945 = 1 then filledBy0945 (downAgg15 s) + 1
                                        else filledBy0945 (downAgg15 s))\<rparr>),
                  dowAgg15 := (dowAgg15 s)(DayOfWeek p \<mapsto> da\<lparr>
                    agg15.count := agg15.count da + 1,
                    agg15.sumFollow := agg15.sumFollow da + followRet15,
                    agg15.sumFade := agg15.sumFade da + fadeRet15,
                    agg15.cont := (if cont15 = 1 then agg15.cont da + 1 else agg15.cont da),
                    filledBy0945 := (if filled0945 = 1 then filledBy0945 da + 1
                                     else filledBy0945 da)\<rparr>)\<rparr>))"

text \<open>
  The loop \<^verbatim>\<open>for i := range pts\<close>.  Iteration \<open>i\<close> reads and writes only \<open>pts[i]\<close>, so the
  slice after the loop is the list of the points each iteration leaves.
\<close>

fun loop15 ::
  "golib \<Rightarrow> (string \<rightharpoonup> polygonBar list) \<Rightarrow> GapPoint list \<Rightarrow> state15 \<Rightarrow>
   GapPoint list \<times> state15" where
  "loop15 G minutesByDate [] s = ([], s)"
| "loop15 G minutesByDate (p # ps) s =
     (let (p', s') = body15 G minutesByDate p s;
          (ps', s'') = loop15 G minutesByDate ps s'
      in (p' # ps', s''))"

definition init15 :: "gapBin list \<Rightarrow> state15" where
  "init15 bins =
     \<lparr>binAgg15 = fold (\<lambda>b m. m(lab b \<mapsto> agg15_0)) bins Map.empty,
      upAgg15 = agg15_0,
      downAgg15 = agg15_0,
      dowAgg15 = [''Mon'' \<mapsto> agg15_0, ''Tue'' \<mapsto> agg15_0, ''Wed'' \<mapsto> agg15_0,
                  ''Thu'' \<mapsto> agg15_0, ''Fri'' \<mapsto> agg15_0],
      fadeSum15 = 0, followSum15 = 0, contCount15 = 0, filledBy0945Count = 0,
      sessions15 = 0\<rparr>"

text \<open>One iteration of the loop that builds \<^verbatim>\<open>outBins15\<close>.\<close>

definition binStat15Of :: "(string \<rightharpoonup> agg15) \<Rightarrow> gapBin \<Rightarrow> BinStat15" where
  "binStat15Of bagg b =
     (let empty = \<lparr>BinStat15.Label = lab b, BinStat15.Count = 0,
                    BinStat15.ContinuationRate = 0, BinStat15.GapFillBy0945Rate = 0,
                    BinStat15.FadeAvg = 0, BinStat15.FollowAvg = 0,
                    BinStat15.Recommendation = []\<rparr>
      in case bagg (lab b) of
           None \<Rightarrow> empty
         | Some ba \<Rightarrow>
             if agg15.count ba = 0 then empty
             else
               let cr = of_int (agg15.cont ba) / of_int (agg15.count ba) * 100;
                   gr = of_int (filledBy0945 ba) / of_int (agg15.count ba) * 100;
                   fa = agg15.sumFade ba / of_int (agg15.count ba);
                   fo = agg15.sumFollow ba / of_int (agg15.count ba);
                   rec = (if cr > 60 then ''FOLLOW'' else if cr < 40 then ''FADE'' else ''NEUTRAL'')
               in \<lparr>BinStat15.Label = lab b, BinStat15.Count = agg15.count ba,
                    BinStat15.ContinuationRate = round1 cr,
                    BinStat15.GapFillBy0945Rate = round1 gr,
                    BinStat15.FadeAvg = round3 fa, BinStat15.FollowAvg = round3 fo,
                    BinStat15.Recommendation = rec\<rparr>)"

definition sideStat15Of :: "agg15 \<Rightarrow> SideStat" where
  "sideStat15Of v =
     \<lparr>SideStat.Count = agg15.count v,
      SideStat.ContinuationRate = rate (agg15.cont v) (agg15.count v),
      SideStat.FadeAvg = avg (agg15.sumFade v) (agg15.count v),
      SideStat.FollowAvg = avg (agg15.sumFollow v) (agg15.count v)\<rparr>"

definition dowStat15Of :: "agg15 \<Rightarrow> DowStat" where
  "dowStat15Of v =
     \<lparr>DowStat.Count = agg15.count v,
      DowStat.ContinuationRate = rate (agg15.cont v) (agg15.count v),
      DowStat.FadeAvg = avg (agg15.sumFade v) (agg15.count v),
      DowStat.FollowAvg = avg (agg15.sumFollow v) (agg15.count v)\<rparr>"

text \<open>
  \<^verbatim>\<open>analyzeFirst15\<close> updates the response behind the pointer \<open>resp\<close>; the model takes the
  response (\<open>None\<close> for a nil pointer) and returns it as the call leaves it.  The two early
  returns leave it untouched.  \<^verbatim>\<open>sort.Slice\<close> with the comparison of positions leaves
  \<^verbatim>\<open>outBins15\<close> in the order of \<^verbatim>\<open>bins\<close>, as in the daily pass.
\<close>

definition analyzeFirst15 ::
  "golib \<Rightarrow> AnalyzeResponse option \<Rightarrow> (string \<rightharpoonup> polygonBar list) \<Rightarrow>
   AnalyzeResponse option" where
  "analyzeFirst15 G respPtr minutesByDate =
     (case respPtr of
        None \<Rightarrow> None
      | Some resp \<Rightarrow>
          if length (Data resp) = 0 then Some resp
          else
            let bins = defaultBins G (MinGap resp);
                (pts, s) = loop15 G minutesByDate (Data resp) (init15 bins);
                contRate15 = (if sessions15 s > 0
                              then of_int (contCount15 s) / of_int (sessions15 s) * 100 else 0);
                fadeAvg15 = (if sessions15 s > 0 then fadeSum15 s / of_int (sessions15 s) else 0);
                followAvg15 = (if sessions15 s > 0
                               then followSum15 s / of_int (sessions15 s) else 0);
                fill0945Rate = (if sessions15 s > 0
                                then of_int (filledBy0945Count s) / of_int (sessions15 s) * 100
                                else 0);
                best15 = (if followAvg15 > fadeAvg15 then ''FOLLOW''
                          else if fadeAvg15 > followAvg15 then ''FADE'' else ''NEUTRAL'');
                exp15 = (if followAvg15 > fadeAvg15 then followAvg15
                         else if fadeAvg15 > followAvg15 then fadeAvg15 else 0)
            in Some (resp\<lparr>
                 Summary15 :=
                   \<lparr>Summary15.Sessions = sessions15 s,
                    Summary15.ContinuationRate = round1 contRate15,
                    Summary15.FadeAvg = round3 fadeAvg15,
                    Summary15.FollowAvg = round3 followAvg15,
                    Summary15.BestStrategy = best15,
                    Summary15.ExpectedReturn = round3 exp15,
                    Summary15.GapFillBy0945Rate = round1 fill0945Rate\<rparr>,
                 Bins15 := map (binStat15Of (binAgg15 s)) bins,
                 UpSide15 := sideStat15Of (upAgg15 s),
                 DownSide15 := sideStat15Of (downAgg15 s),
                 ByDOW15 := (\<lambda>k. map_option dowStat15Of (dowAgg15 s k)),
                 Data := pts\<rparr>))"

section \<open>A calendar for concrete runs\<close>

text \<open>
  A \<open>golib\<close> that agrees with Go's New York calendar on the first week of January 2024
  (Eastern Standard Time, five hours behind UTC; 1 January 2024 is a Monday), and prints a
  number below 100 with one decimal.  It is used only where a run is evaluated on concrete
  bars; the theorems hold for every \<open>golib\<close>.
\<close>

definition jan2024 :: golib where
  "jan2024 =
     \<lparr>nyDate = (\<lambda>t. if t < 1704171600000 then ''2024-01-01''
                     else if t < 1704258000000 then ''2024-01-02''
                     else if t < 1704344400000 then ''2024-01-03''
                     else if t < 1704430800000 then ''2024-01-04''
                     else ''2024-01-05''),
      nyWeekday = (\<lambda>t. if t < 1704171600000 then ''Mon''
                        else if t < 1704258000000 then ''Tue''
                        else if t < 1704344400000 then ''Wed''
                        else if t < 1704430800000 then ''Thu''
                        else ''Fri''),
      nyHour = (\<lambda>t. (t div 3600000 - 5) mod 24),
      nyMinute = (\<lambda>t. (t div 60000) mod 60),
      sprintf1 = (\<lambda>x. let n = \<lfloor>x * 10 + 1 / 2\<rfloor>;
                           dig = (\<lambda>d. ''0123456789'' ! nat d)
                       in (if n div 10 < 10 then [dig (n div 10)]
                           else [dig (n div 100), dig (n div 10 mod 10)])
                          @ ''.'' @ [dig (n mod 10)])\<rparr>"

text \<open>A daily bar, written as in the provider's JSON: \<open>t o h l c v\<close>.\<close>

definition bar :: "int \<Rightarrow> real \<Rightarrow> real \<Rightarrow> real \<Rightarrow> real \<Rightarrow> real \<Rightarrow> polygonBar" where
  "bar t o' h l c v = \<lparr>barT = t, barO = o', barH = h, barL = l, barC = c, barV = v\<rparr>"

section \<open>Notions used to state the properties\<close>

text \<open>
  The unrounded quantities of an event, recomputed from the raw prices that the event
  carries (\<open>Open\<close>, \<open>Close\<close> and \<open>PrevClose\<close> are stored unrounded): the gap percentage, the
  daily return percentage, and the returns of the two strategies.
\<close>

definition gapOf :: "GapPoint \<Rightarrow> real" where
  "gapOf p = (Open p - PrevClose p) / PrevClose p * 100"

definition retOf :: "GapPoint \<Rightarrow> real" where
  "retOf p = (Close p - Open p) / Open p * 100"

definition followRetOf :: "GapPoint \<Rightarrow> real" where
  "followRetOf p = of_int (Direction p) * retOf p"

definition fadeRetOf :: "GapPoint \<Rightarrow> real" where
  "fadeRetOf p = - of_int (Direction p) * retOf p"

text \<open>The two guards of the loop: a pair that fails one of them is skipped.\<close>

definition emits :: "real \<Rightarrow> polygonBar \<Rightarrow> polygonBar \<Rightarrow> bool" where
  "emits minGap prev day \<longleftrightarrow>
     0 < barC prev \<and> 0 < barO day \<and> minGap \<le> \<bar>(barO day - barC prev) / barC prev * 100\<bar>"

text \<open>The event that the loop appends for a pair that passes the guards.\<close>

definition pointOf ::
  "(int \<Rightarrow> string) \<Rightarrow> (int \<Rightarrow> string) \<Rightarrow> gapBin list \<Rightarrow> polygonBar \<Rightarrow> polygonBar \<Rightarrow> GapPoint" where
  "pointOf dateOf dowOf bins prev day =
     (let gapPct = (barO day - barC prev) / barC prev * 100;
          dr = (barC day - barO day) / barO day * 100;
          dir = sign gapPct
      in \<lparr>Date = dateOf (barT day), GapPct = round3 gapPct, DailyReturnPct = round3 dr,
           Direction = dir,
           SameDir = (if sign dr = dir \<and> dir \<noteq> 0 \<and> dr \<noteq> 0 then 1 else 0),
           Filled = (if (dir = 1 \<and> barL day \<le> barC prev) \<or> (dir = - 1 \<and> barH day \<ge> barC prev)
                     then 1 else 0),
           Bin = labelFor \<bar>gapPct\<bar> bins,
           Open = barO day, Close = barC day, PrevClose = barC prev,
           DayOfWeek = dowOf (barT day), Ret15mPct = 0, FilledBy0945 = 0\<rparr>)"

fun eventsOf ::
  "(int \<Rightarrow> string) \<Rightarrow> (int \<Rightarrow> string) \<Rightarrow> real \<Rightarrow> gapBin list \<Rightarrow>
   polygonBar \<Rightarrow> polygonBar list \<Rightarrow> GapPoint list" where
  "eventsOf dateOf dowOf minGap bins prev [] = []"
| "eventsOf dateOf dowOf minGap bins prev (day # rest) =
     (if emits minGap prev day then [pointOf dateOf dowOf bins prev day] else [])
     @ eventsOf dateOf dowOf minGap bins day rest"

text \<open>Three daily bars of the first week of January 2024, used in concrete runs.\<close>

definition demoBars :: "polygonBar list" where
  "demoBars =
     [bar 1704153600000 99 100 98 100 1000,
      bar 1704240000000 101 102 100.5 99 1000,
      bar 1704326400000 250 260 240 255 10]"

text \<open>
  What one emitted event adds to the accumulators.  Everything the loop body adds is
  determined by the event it appends, since the event carries the raw prices.
\<close>

definition aggAdd :: "GapPoint \<Rightarrow> agg \<Rightarrow> agg" where
  "aggAdd p a =
     a\<lparr>count := count a + 1,
       sumFollow := sumFollow a + followRetOf p,
       sumFade := sumFade a + fadeRetOf p,
       cont := (if SameDir p = 1 then cont a + 1 else cont a)\<rparr>"

definition aggAddFill :: "GapPoint \<Rightarrow> agg \<Rightarrow> agg" where
  "aggAddFill p a = (aggAdd p a)\<lparr>filled := (if Filled p = 1 then filled a + 1 else filled a)\<rparr>"

definition addPoint :: "GapPoint \<Rightarrow> dailyState \<Rightarrow> dailyState" where
  "addPoint p s =
     s\<lparr>upCount := (if Direction p = 1 then upCount s + 1 else upCount s),
       downCount := (if Direction p = 1 then downCount s
                     else if Direction p = - 1 then downCount s + 1 else downCount s),
       contCount := (if SameDir p = 1 then contCount s + 1 else contCount s),
       meanAbsGap := meanAbsGap s + \<bar>gapOf p\<bar>,
       maxGapUp := (if gapOf p > maxGapUp s then gapOf p else maxGapUp s),
       maxGapDown := (if gapOf p < maxGapDown s then gapOf p else maxGapDown s),
       followSum := followSum s + followRetOf p,
       fadeSum := fadeSum s + fadeRetOf p,
       cumDates := cumDates s @ [Date p],
       cumFollow := cumFollow s + followRetOf p,
       cumFade := cumFade s + fadeRetOf p,
       cumFollowArr := cumFollowArr s @ [round3 (cumFollow s + followRetOf p)],
       cumFadeArr := cumFadeArr s @ [round3 (cumFade s + fadeRetOf p)],
       binAgg := (case binAgg s (Bin p) of
                    None \<Rightarrow> binAgg s
                  | Some ba \<Rightarrow> (binAgg s)(Bin p \<mapsto> aggAddFill p ba)),
       upAgg := (if Direction p = 1 then aggAdd p (upAgg s) else upAgg s),
       downAgg := (if Direction p = 1 then downAgg s else aggAdd p (downAgg s)),
       dowAgg := (case dowAgg s (DayOfWeek p) of
                    None \<Rightarrow> dowAgg s
                  | Some da \<Rightarrow> (dowAgg s)(DayOfWeek p \<mapsto> aggAdd p da)),
       points := points s @ [p]\<rparr>"

text \<open>
  Notions for the intraday pass.  \<open>noBars m p\<close>: the map has no intraday bars for the
  session date of \<open>p\<close> (no entry, or an empty slice).  \<open>snap15 G m p\<close>: what the loop body
  computes for \<open>p\<close> when it does not skip it, namely the 0-15 minute return, the
  continuation flag to 09:45 and the filled-by-09:45 flag; \<open>None\<close> when the body skips \<open>p\<close>.
  \<open>add15 p x\<close>: what a processed point adds to the locals.
\<close>

definition noBars :: "(string \<rightharpoonup> polygonBar list) \<Rightarrow> GapPoint \<Rightarrow> bool" where
  "noBars m p \<longleftrightarrow> (case m (Date p) of None \<Rightarrow> True | Some bs \<Rightarrow> bs = [])"

definition snap15 ::
  "golib \<Rightarrow> (string \<rightharpoonup> polygonBar list) \<Rightarrow> GapPoint \<Rightarrow> (real \<times> int \<times> int) option" where
  "snap15 G minutesByDate p =
     (let mins = (case minutesByDate (Date p) of None \<Rightarrow> [] | Some bs \<Rightarrow> bs) in
      if length mins = 0 then None
      else
        let rth0 = filter (\<lambda>b. nyHour G (barT b) = 9 \<and> nyMinute G (barT b) \<ge> 30
                                \<and> nyMinute G (barT b) \<le> 44) mins;
            rth = (if length rth0 = 0
                   then filter (\<lambda>b. nyHour G (barT b) = 9 \<and> nyMinute G (barT b) \<le> 45) mins
                   else rth0)
        in
        if length rth = 0 then None
        else
          let found = (case find (\<lambda>b. nyMinute G (barT b) = 30) rth of
                         None \<Rightarrow> 0 | Some b \<Rightarrow> barO b);
              open0930 = (if found = 0 then Open p else found)
          in
          if open0930 \<le> 0 then None
          else
            let ret15 = (barC (last rth) - open0930) / open0930 * 100
            in Some (ret15,
                 (if sign ret15 = Direction p \<and> Direction p \<noteq> 0 \<and> ret15 \<noteq> 0 then 1 else 0),
                 (if Direction p = 1
                  then (if list_ex (\<lambda>b. barL b \<le> PrevClose p) rth then 1 else 0)
                  else if Direction p = - 1
                  then (if list_ex (\<lambda>b. barH b \<ge> PrevClose p) rth then 1 else 0)
                  else 0)))"

definition agg15Add :: "GapPoint \<Rightarrow> real \<times> int \<times> int \<Rightarrow> agg15 \<Rightarrow> agg15" where
  "agg15Add p x a =
     a\<lparr>agg15.count := agg15.count a + 1,
       agg15.sumFollow := agg15.sumFollow a + of_int (Direction p) * fst x,
       agg15.sumFade := agg15.sumFade a + - of_int (Direction p) * fst x,
       agg15.cont := (if fst (snd x) = 1 then agg15.cont a + 1 else agg15.cont a),
       filledBy0945 := (if snd (snd x) = 1 then filledBy0945 a + 1 else filledBy0945 a)\<rparr>"

definition add15 :: "GapPoint \<Rightarrow> real \<times> int \<times> int \<Rightarrow> state15 \<Rightarrow> state15" where
  "add15 p x s =
     s\<lparr>followSum15 := followSum15 s + of_int (Direction p) * fst x,
       fadeSum15 := fadeSum15 s + - of_int (Direction p) * fst x,
       contCount15 := contCount15 s + fst (snd x),
       filledBy0945Count := filledBy0945Count s + snd (snd x),
       sessions15 := sessions15 s + 1,
       binAgg15 := (binAgg15 s)(Bin p \<mapsto>
         agg15Add p x (case binAgg15 s (Bin p) of None \<Rightarrow> agg15_0 | Some a \<Rightarrow> a)),
       upAgg15 := (if Direction p = 1 then agg15Add p x (upAgg15 s) else upAgg15 s),
       downAgg15 := (if Direction p = 1 then downAgg15 s else agg15Add p x (downAgg15 s)),
       dowAgg15 := (dowAgg15 s)(DayOfWeek p \<mapsto>
         agg15Add p x (case dowAgg15 s (DayOfWeek p) of None \<Rightarrow> agg15_0 | Some a \<Rightarrow> a))\<rparr>"

text \<open>The point that a processed iteration leaves, and the step of the locals.\<close>

definition point15 :: "golib \<Rightarrow> (string \<rightharpoonup> polygonBar list) \<Rightarrow> GapPoint \<Rightarrow> GapPoint" where
  "point15 G m p =
     (case snap15 G m p of
        None \<Rightarrow> p
      | Some x \<Rightarrow> p\<lparr>Ret15mPct := round3 (fst x), FilledBy0945 := snd (snd x)\<rparr>)"

definition step15 :: "golib \<Rightarrow> (string \<rightharpoonup> polygonBar list) \<Rightarrow> GapPoint \<Rightarrow> state15 \<Rightarrow> state15" where
  "step15 G m p s = (case snap15 G m p of None \<Rightarrow> s | Some x \<Rightarrow> add15 p x s)"

text \<open>The continuation flag to 09:45 of a point; 0 when the intraday pass skips the point.\<close>

definition cont15Of :: "golib \<Rightarrow> (string \<rightharpoonup> polygonBar list) \<Rightarrow> GapPoint \<Rightarrow> int" where
  "cont15Of G m p = (case snap15 G m p of None \<Rightarrow> 0 | Some x \<Rightarrow> fst (snd x))"

text \<open>The recommendation of a group with \<open>c\<close> continuations among \<open>n > 0\<close> events.\<close>

definition recOf :: "nat \<Rightarrow> nat \<Rightarrow> string" where
  "recOf c n =
     (if real c / real n * 100 > 60 then ''FOLLOW''
      else if real c / real n * 100 < 40 then ''FADE'' else ''NEUTRAL'')"

text \<open>Three daily bars whose second bar is a bad tick (its open price is zero).\<close>

definition badTickBars :: "polygonBar list" where
  "badTickBars =
     [bar 1704153600000 99 100 98 100 1000,
      bar 1704240000000 0 0 0 50 0,
      bar 1704326400000 51 52 50 50.5 10]"

text \<open>
  Three daily bars whose second session closes at its open (a daily return of exactly 0)
  after a gap up, and whose third session gaps down and closes lower.
\<close>

definition flatDayBars :: "polygonBar list" where
  "flatDayBars =
     [bar 1704153600000 99 100 98 100 1000,
      bar 1704240000000 101 102 100.5 101 1000,
      bar 1704326400000 100 100.5 99 99 1000]"

text \<open>
  Three daily bars: a gap up that trades back to the prior close, then a gap down that does
  not.
\<close>

definition fillBars :: "polygonBar list" where
  "fillBars =
     [bar 1704153600000 99 100 98 100 1000,
      bar 1704240000000 101 102 99.5 101.5 1000,
      bar 1704326400000 100 101 99 100.5 1000]"

text \<open>Three daily bars with two gaps down and no gap up.\<close>

definition gapDownBars :: "polygonBar list" where
  "gapDownBars =
     [bar 1704153600000 99 100 98 100 1000,
      bar 1704240000000 99 99.5 97 98 1000,
      bar 1704326400000 97 97.5 96 96.5 1000]"

text \<open>
  Two daily bars: a prior close of 100, then a session that opens at 101, trades between
  100.5 and 102 and closes at 99.
\<close>

definition scenarioBars :: "polygonBar list" where
  "scenarioBars =
     [bar 1704153600000 99 100 98 100 1000,
      bar 1704240000000 101 102 100.5 99 1000]"

text \<open>Two daily bars: a prior close of 100, then an open at 250 (a gap of 150 percent).\<close>

definition bigGapBars :: "polygonBar list" where
  "bigGapBars =
     [bar 1704153600000 99 100 98 100 1000,
      bar 1704240000000 250 260 240 255 10]"

text \<open>
  Intraday bars for 3 January 2024 only: the minutes 09:30 and 09:44 New York time.  The
  map has no entry for any other date.
\<close>

definition demoMinutes :: "string \<rightharpoonup> polygonBar list" where
  "demoMinutes =
     [''2024-01-03'' \<mapsto>
        [bar 1704292200000 101 101.4 100.9 101.2 500,
         bar 1704293040000 101.2 101.6 101.1 101.5 400]]"

text \<open>
  Six daily bars with five gaps up of 1.2 percent; the first three sessions close above
  their open, the last two below.  The intraday bars are the minutes 09:30 and 09:44 of
  3 January 2024.
\<close>

definition fiveGapBars :: "polygonBar list" where
  "fiveGapBars =
     [bar 1703980800000 99 100 98 100 1000,
      bar 1704067200000 101.2 102.5 101 102 1000,
      bar 1704153600000 103.224 104.5 103 104 1000,
      bar 1704240000000 105.248 106.5 105 106 1000,
      bar 1704326400000 107.272 107.5 99 100 1000,
      bar 1704412800000 101.2 101.5 99 100 1000]"

definition fiveGapMinutes :: "string \<rightharpoonup> polygonBar list" where
  "fiveGapMinutes =
     [''2024-01-03'' \<mapsto>
        [bar 1704292200000 105.248 105.5 105.1 105.3 500,
         bar 1704293040000 105.3 105.6 105.2 105.5 400]]"

section \<open>The loop of the daily pass as a fold over its events\<close>

lemma pointOf_simps:
  "Open (pointOf dateOf dowOf bins prev day) = barO day"
  "Close (pointOf dateOf dowOf bins prev day) = barC day"
  "PrevClose (pointOf dateOf dowOf bins prev day) = barC prev"
  "Date (pointOf dateOf dowOf bins prev day) = dateOf (barT day)"
  "DayOfWeek (pointOf dateOf dowOf bins prev day) = dowOf (barT day)"
  "Ret15mPct (pointOf dateOf dowOf bins prev day) = 0"
  "FilledBy0945 (pointOf dateOf dowOf bins prev day) = 0"
  by (simp_all add: pointOf_def Let_def)

lemma gapOf_pointOf:
  "gapOf (pointOf dateOf dowOf bins prev day) = (barO day - barC prev) / barC prev * 100"
  by (simp add: gapOf_def pointOf_simps)

lemma retOf_pointOf:
  "retOf (pointOf dateOf dowOf bins prev day) = (barC day - barO day) / barO day * 100"
  by (simp add: retOf_def pointOf_simps)

lemma pointOf_flags:
  "Direction (pointOf dateOf dowOf bins prev day) = sign (gapOf (pointOf dateOf dowOf bins prev day))"
  "SameDir (pointOf dateOf dowOf bins prev day) =
     (if sign (retOf (pointOf dateOf dowOf bins prev day)) = Direction (pointOf dateOf dowOf bins prev day)
         \<and> Direction (pointOf dateOf dowOf bins prev day) \<noteq> 0
         \<and> retOf (pointOf dateOf dowOf bins prev day) \<noteq> 0 then 1 else 0)"
  "Filled (pointOf dateOf dowOf bins prev day) =
     (if (Direction (pointOf dateOf dowOf bins prev day) = 1 \<and> barL day \<le> barC prev)
         \<or> (Direction (pointOf dateOf dowOf bins prev day) = - 1 \<and> barH day \<ge> barC prev)
      then 1 else 0)"
  "Bin (pointOf dateOf dowOf bins prev day) =
     labelFor \<bar>gapOf (pointOf dateOf dowOf bins prev day)\<bar> bins"
  unfolding gapOf_pointOf retOf_pointOf
  by (simp_all add: pointOf_def Let_def split del: if_split cong: if_cong)

lemma dailyBody_emit:
  assumes "emits minGap prev day"
  shows "dailyBody dateOf dowOf minGap bins prev day s =
         addPoint (pointOf dateOf dowOf bins prev day) s"
proof -
  have g1: "\<not> (barC prev \<le> 0 \<or> barO day \<le> 0)"
    using assms by (auto simp: emits_def)
  have g2: "\<not> \<bar>(barO day - barC prev) / barC prev * 100\<bar> < minGap"
    using assms unfolding emits_def by linarith
  show ?thesis
    unfolding dailyBody_def Let_def
    apply (simp only: g1 g2 if_False)
    apply (simp add: addPoint_def pointOf_def Let_def gapOf_def retOf_def followRetOf_def
        fadeRetOf_def aggAdd_def aggAddFill_def split del: if_split cong: if_cong option.case_cong)
    done
qed

lemma dailyBody_skip:
  assumes "\<not> emits minGap prev day"
  shows "dailyBody dateOf dowOf minGap bins prev day s = s"
proof (cases "barC prev \<le> 0 \<or> barO day \<le> 0")
  case True
  then show ?thesis
    unfolding dailyBody_def Let_def by (simp only: if_True)
next
  case False
  with assms have "\<bar>(barO day - barC prev) / barC prev * 100\<bar> < minGap"
    unfolding emits_def by linarith
  with False show ?thesis
    unfolding dailyBody_def Let_def by (simp only: if_True if_False)
qed

lemma dailyLoop_fold:
  "dailyLoop dateOf dowOf minGap bins prev days s =
     fold addPoint (eventsOf dateOf dowOf minGap bins prev days) s"
proof (induction days arbitrary: prev s)
  case Nil
  show ?case by simp
next
  case (Cons day rest)
  show ?case
  proof (cases "emits minGap prev day")
    case True
    then show ?thesis by (simp add: Cons.IH dailyBody_emit)
  next
    case False
    then show ?thesis by (simp add: Cons.IH dailyBody_skip)
  qed
qed

lemma points_addPoint: "points (addPoint p s) = points s @ [p]"
  by (simp add: addPoint_def)

lemma points_fold: "points (fold addPoint evs s) = points s @ evs"
  by (induction evs arbitrary: s) (simp_all add: points_addPoint)

lemma length_eventsOf: "length (eventsOf dateOf dowOf minGap bins prev days) \<le> length days"
  by (induction days arbitrary: prev) (simp_all add: le_SucI)

lemma eventsOf_origin:
  "p \<in> set (eventsOf dateOf dowOf minGap bins prev days) \<Longrightarrow>
     \<exists>i<length days. emits minGap ((prev # days) ! i) (days ! i) \<and>
        p = pointOf dateOf dowOf bins ((prev # days) ! i) (days ! i)"
proof (induction days arbitrary: prev)
  case Nil
  then show ?case by simp
next
  case (Cons day rest)
  from Cons.prems consider
    (here) "emits minGap prev day" "p = pointOf dateOf dowOf bins prev day"
    | (later) "p \<in> set (eventsOf dateOf dowOf minGap bins day rest)"
    by (auto split: if_splits)
  then show ?case
  proof cases
    case here
    then have "emits minGap ((prev # day # rest) ! 0) ((day # rest) ! 0) \<and>
        p = pointOf dateOf dowOf bins ((prev # day # rest) ! 0) ((day # rest) ! 0)"
      by simp
    then show ?thesis by blast
  next
    case later
    from Cons.IH[OF later] obtain i where i: "i < length rest"
      "emits minGap ((day # rest) ! i) (rest ! i)"
      "p = pointOf dateOf dowOf bins ((day # rest) ! i) (rest ! i)"
      by blast
    then have "Suc i < length (day # rest) \<and>
        emits minGap ((prev # day # rest) ! Suc i) ((day # rest) ! Suc i) \<and>
        p = pointOf dateOf dowOf bins ((prev # day # rest) ! Suc i) ((day # rest) ! Suc i)"
      by simp
    then show ?thesis by blast
  qed
qed

lemma analyzeWith_short:
  "length daily < 2 \<Longrightarrow>
   analyzeWith dateOf dowOf G daily minGap years ticker =
     \<lparr>Success = False, Error = ''not enough data'', Ticker = ticker, Years = years,
      MinGap = minGap, Data = [], Summary = Summary0, Bins = [], ByDOW = Map.empty,
      UpSide = SideStat0, DownSide = SideStat0, CumDates = [], CumFade = [], CumFollow = [],
      Summary15 = Summary15_0, Bins15 = [], ByDOW15 = Map.empty,
      UpSide15 = SideStat0, DownSide15 = SideStat0\<rparr>"
  by (simp add: analyzeWith_def)

lemma Data_analyzeWith:
  "Data (analyzeWith dateOf dowOf G daily minGap years ticker) =
     (if length daily < 2 then []
      else eventsOf dateOf dowOf minGap (defaultBins G minGap) (hd daily) (tl daily))"
  by (simp add: analyzeWith_def Let_def dailyLoop_fold points_fold dailyInit_def)

lemma analyzeWith_origin:
  assumes "p \<in> set (Data (analyzeWith dateOf dowOf G daily minGap years ticker))"
  shows "\<exists>i. Suc i < length daily \<and> emits minGap (daily ! i) (daily ! Suc i) \<and>
           p = pointOf dateOf dowOf (defaultBins G minGap) (daily ! i) (daily ! Suc i)"
proof -
  from assms have len: "\<not> length daily < 2"
    by (auto simp: Data_analyzeWith split: if_splits)
  then obtain b rest where d: "daily = b # rest"
    by (cases daily) auto
  from assms len have "p \<in> set (eventsOf dateOf dowOf minGap (defaultBins G minGap) b rest)"
    by (simp add: Data_analyzeWith d)
  from eventsOf_origin[OF this] show ?thesis
    unfolding d by auto
qed

lemma length_Data_analyzeWith:
  "length (Data (analyzeWith dateOf dowOf G daily minGap years ticker)) \<le> length daily - 1"
proof (cases "length daily < 2")
  case True
  then show ?thesis by (simp add: Data_analyzeWith)
next
  case False
  have "length (eventsOf dateOf dowOf minGap (defaultBins G minGap) (hd daily) (tl daily))
          \<le> length (tl daily)"
    by (rule length_eventsOf)
  with False show ?thesis by (simp add: Data_analyzeWith)
qed

lemma analyzeWith_ok:
  "2 \<le> length daily \<Longrightarrow>
     Success (analyzeWith dateOf dowOf G daily minGap years ticker) \<and>
     Error (analyzeWith dateOf dowOf G daily minGap years ticker) = []"
  by (simp add: analyzeWith_def Let_def)

lemma emits_gapOf:
  "emits minGap prev day \<Longrightarrow>
     minGap \<le> \<bar>gapOf (pointOf dateOf dowOf bins prev day)\<bar> \<and>
     0 < PrevClose (pointOf dateOf dowOf bins prev day) \<and>
     0 < Open (pointOf dateOf dowOf bins prev day)"
  unfolding gapOf_pointOf emits_def pointOf_simps by blast

lemma analyzeDaily_fst:
  "fst (analyzeDaily G daily minGap years ticker) =
     analyzeWith (sessionDateNYFromDaily G) (sessionWeekdayNYFromDaily G) G daily minGap years ticker"
  by (simp add: analyzeDaily_def Let_def)

lemma analyzeDaily_snd:
  "snd (analyzeDaily G daily minGap years ticker) =
     Data (fst (analyzeDaily G daily minGap years ticker))"
  by (simp add: analyzeDaily_def Let_def)

lemma either_analyzeWith:
  assumes "r = fst (analyzeDaily G daily minGap years ticker) \<or>
           r = analyzeGaps G daily minGap years ticker"
  obtains dateOf dowOf where "r = analyzeWith dateOf dowOf G daily minGap years ticker"
  using assms by (auto simp: analyzeDaily_fst analyzeGaps_def)

section \<open>Fewer than two bars\<close>

text \<open>
  Claim C9, as the code has it.  With fewer than two daily bars the analysis returns a
  result (it does not fail): \<open>Success\<close> is false, the message is the text
  \<^verbatim>\<open>not enough data\<close>, there are no events (neither in \<open>Data\<close> nor in the returned slice),
  no cumulative entries, no bins and no weekday entries, and the summary and both side
  tables are the zero values.  This holds for \<^verbatim>\<open>analyzeDaily\<close> and for \<^verbatim>\<open>analyzeGaps\<close>.
\<close>

theorem C9_not_enough_data:
  assumes "length daily < 2"
    and "r = fst (analyzeDaily G daily minGap years ticker) \<or>
         r = analyzeGaps G daily minGap years ticker"
  shows "Success r = False \<and> Error r = ''not enough data'' \<and>
         Data r = [] \<and> snd (analyzeDaily G daily minGap years ticker) = [] \<and>
         CumDates r = [] \<and> CumFade r = [] \<and> CumFollow r = [] \<and>
         Summary r = Summary0 \<and> Bins r = [] \<and> ByDOW r = Map.empty \<and>
         UpSide r = SideStat0 \<and> DownSide r = SideStat0"
proof -
  from assms(2) obtain dateOf dowOf
    where r: "r = analyzeWith dateOf dowOf G daily minGap years ticker"
    by (rule either_analyzeWith)
  have "snd (analyzeDaily G daily minGap years ticker) = []"
    using assms(1) by (simp add: analyzeDaily_snd analyzeDaily_fst Data_analyzeWith)
  then show ?thesis
    unfolding r analyzeWith_short[OF assms(1)] by simp
qed

theorem C9_not_enough_data_witness:
  "length [bar 1704153600000 99 100 98 100 1000] < 2 \<and>
   Success (fst (analyzeDaily jan2024 [bar 1704153600000 99 100 98 100 1000] 0.3 3 ''AAPL''))
     = False \<and>
   Error (fst (analyzeDaily jan2024 [bar 1704153600000 99 100 98 100 1000] 0.3 3 ''AAPL''))
     = ''not enough data'' \<and>
   Data (fst (analyzeDaily jan2024 [bar 1704153600000 99 100 98 100 1000] 0.3 3 ''AAPL''))
     = [] \<and>
   Summary (fst (analyzeDaily jan2024 [bar 1704153600000 99 100 98 100 1000] 0.3 3 ''AAPL''))
     = Summary0"
proof -
  have short: "length [bar 1704153600000 99 100 98 100 1000] < 2"
    by simp
  from C9_not_enough_data[OF short disjI1[OF refl], of jan2024 "0.3" 3 "''AAPL''"] short
  show ?thesis by blast
qed

text \<open>
  The message is not the text \<^verbatim>\<open>insufficient data\<close>: on an empty bar sequence the
  error field differs from it.
\<close>

theorem C9_message_counterexample:
  "length ([] :: polygonBar list) < 2 \<and>
   Error (fst (analyzeDaily jan2024 [] 0.3 3 ''AAPL'')) \<noteq> ''insufficient data''"
  by (simp add: analyzeDaily_fst analyzeWith_short)

section \<open>The events of the daily pass\<close>

lemma contCount_fold:
  "contCount (fold addPoint evs s) =
     contCount s + int (length (filter (\<lambda>p. SameDir p = 1) evs))"
  by (induction evs arbitrary: s) (simp_all add: addPoint_def)

lemma round1_zero: "round1 0 = 0"
  by (simp add: round1_def math_Round_def)

lemma Summary_ContinuationRate:
  "Summary.ContinuationRate (Summary (analyzeWith dateOf dowOf G daily minGap years ticker)) =
     (let evs = Data (analyzeWith dateOf dowOf G daily minGap years ticker) in
      if evs = [] then 0
      else round1 (real (length (filter (\<lambda>p. SameDir p = 1) evs)) / real (length evs) * 100))"
proof (cases "length daily < 2")
  case True
  then show ?thesis by (simp add: analyzeWith_short Summary0_def)
next
  case False
  then show ?thesis
    by (simp add: analyzeWith_def Let_def dailyLoop_fold points_fold contCount_fold
        dailyInit_def round1_zero)
qed

text \<open>
  Claim C2.  The daily pass emits at most (number of bars - 1) events (the bound is 0 for
  an empty sequence).  Every emitted event comes from a consecutive pair of bars
  \<open>daily ! i\<close>, \<open>daily ! Suc i\<close> whose prices are both positive, and its unrounded gap
  percentage \<open>(open - prevClose) / prevClose * 100\<close> is at least \<open>minGap\<close> in absolute
  value.  A pair with \<open>prev.close \<le> 0\<close> or \<open>day.open \<le> 0\<close> leaves the whole loop state,
  and so the list of events, as it is, and with at least two bars the result is a success
  without an error message whatever the prices are.
\<close>

theorem C2_events_bounded_and_filtered:
  assumes "r = fst (analyzeDaily G daily minGap years ticker) \<or>
           r = analyzeGaps G daily minGap years ticker"
  shows "length (Data r) \<le> length daily - 1 \<and>
         (\<forall>p\<in>set (Data r).
            minGap \<le> \<bar>gapOf p\<bar> \<and>
            (\<exists>i. Suc i < length daily \<and>
                 PrevClose p = barC (daily ! i) \<and> Open p = barO (daily ! Suc i) \<and>
                 0 < barC (daily ! i) \<and> 0 < barO (daily ! Suc i))) \<and>
         (\<forall>prev day s. barC prev \<le> 0 \<or> barO day \<le> 0 \<longrightarrow>
            dailyBody dateOf dowOf minGap bins prev day s = s) \<and>
         (2 \<le> length daily \<longrightarrow> Success r \<and> Error r = [])"
proof -
  from assms obtain dateOf' dowOf'
    where r: "r = analyzeWith dateOf' dowOf' G daily minGap years ticker"
    by (rule either_analyzeWith)
  have bound: "length (Data r) \<le> length daily - 1"
    unfolding r by (rule length_Data_analyzeWith)
  have each: "minGap \<le> \<bar>gapOf p\<bar> \<and>
            (\<exists>i. Suc i < length daily \<and>
                 PrevClose p = barC (daily ! i) \<and> Open p = barO (daily ! Suc i) \<and>
                 0 < barC (daily ! i) \<and> 0 < barO (daily ! Suc i))"
    if "p \<in> set (Data r)" for p
  proof -
    from that obtain i where i: "Suc i < length daily"
      "emits minGap (daily ! i) (daily ! Suc i)"
      "p = pointOf dateOf' dowOf' (defaultBins G minGap) (daily ! i) (daily ! Suc i)"
      unfolding r using analyzeWith_origin by blast
    from emits_gapOf[OF i(2), of dateOf' dowOf' "defaultBins G minGap"]
    have "minGap \<le> \<bar>gapOf p\<bar>" "0 < PrevClose p" "0 < Open p"
      unfolding i(3) by simp_all
    moreover have "PrevClose p = barC (daily ! i)" "Open p = barO (daily ! Suc i)"
      unfolding i(3) by (simp_all add: pointOf_simps)
    ultimately show ?thesis using i(1) by auto
  qed
  have skip: "dailyBody dateOf dowOf minGap bins prev day s = s"
    if "barC prev \<le> 0 \<or> barO day \<le> 0" for prev day s
  proof -
    from that have "\<not> emits minGap prev day"
      by (auto simp: emits_def)
    then show ?thesis by (rule dailyBody_skip)
  qed
  have ok: "Success r \<and> Error r = []" if "2 \<le> length daily"
    unfolding r using that by (rule analyzeWith_ok)
  from bound each skip ok show ?thesis by blast
qed

lemma badTick_events:
  "Data (fst (analyzeDaily jan2024 badTickBars 0.3 3 ''AAPL'')) =
     [\<lparr>Date = ''2024-01-04'', GapPct = 2, DailyReturnPct = - (49 / 50), Direction = 1,
        SameDir = 0, Filled = 1, Bin = ''>1.5%'', Open = 51, Close = 101 / 2,
        PrevClose = 50, DayOfWeek = ''Thu'', Ret15mPct = 0, FilledBy0945 = 0\<rparr>]"
  by code_simp

theorem C2_events_bounded_and_filtered_witness:
  "length (Data (fst (analyzeDaily jan2024 badTickBars 0.3 3 ''AAPL''))) = 1 \<and>
   length (Data (fst (analyzeDaily jan2024 badTickBars 0.3 3 ''AAPL'')))
     \<le> length badTickBars - 1 \<and>
   0.3 \<le> \<bar>gapOf (hd (Data (fst (analyzeDaily jan2024 badTickBars 0.3 3 ''AAPL''))))\<bar> \<and>
   barO (badTickBars ! 1) \<le> 0 \<and>
   dailyBody (sessionDateNYFromDaily jan2024) (sessionWeekdayNYFromDaily jan2024) 0.3
     (defaultBins jan2024 0.3) (badTickBars ! 0) (badTickBars ! 1)
     (dailyInit (defaultBins jan2024 0.3)) = dailyInit (defaultBins jan2024 0.3) \<and>
   Success (fst (analyzeDaily jan2024 badTickBars 0.3 3 ''AAPL''))"
proof -
  have bad: "barO (badTickBars ! 1) \<le> 0"
    by (simp add: badTickBars_def bar_def)
  have len: "2 \<le> length badTickBars"
    by (simp add: badTickBars_def)
  have hd_in: "hd (Data (fst (analyzeDaily jan2024 badTickBars 0.3 3 ''AAPL'')))
      \<in> set (Data (fst (analyzeDaily jan2024 badTickBars 0.3 3 ''AAPL'')))"
    by (simp add: badTick_events)
  have one: "length (Data (fst (analyzeDaily jan2024 badTickBars 0.3 3 ''AAPL''))) = 1"
    by (simp add: badTick_events)
  from C2_events_bounded_and_filtered[OF disjI1[OF refl], of jan2024 badTickBars "0.3" 3
      "''AAPL''" "sessionDateNYFromDaily jan2024" "sessionWeekdayNYFromDaily jan2024"
      "defaultBins jan2024 0.3"] bad len hd_in one
  show ?thesis by blast
qed

text \<open>
  Claim C5.  For every emitted daily event, with \<open>retOf p\<close> the unrounded daily return
  \<open>(close - open) / open * 100\<close> and \<open>Direction p\<close> the sign of the unrounded gap: the
  continuation flag is 0 or 1, and it is 1 exactly when the sign of the daily return equals
  the direction, the direction is not 0 and the daily return is not 0.  An event whose daily
  return is exactly 0 has the flag 0, and the summary's continuation rate counts exactly
  the events whose flag is 1.
\<close>

theorem C5_continuation_flag:
  assumes "r = fst (analyzeDaily G daily minGap years ticker) \<or>
           r = analyzeGaps G daily minGap years ticker"
  shows "(\<forall>p\<in>set (Data r).
            Direction p = sign (gapOf p) \<and>
            (SameDir p = 0 \<or> SameDir p = 1) \<and>
            (SameDir p = 1 \<longleftrightarrow>
               sign (retOf p) = Direction p \<and> Direction p \<noteq> 0 \<and> retOf p \<noteq> 0) \<and>
            (retOf p = 0 \<longrightarrow> SameDir p = 0)) \<and>
         Summary.ContinuationRate (Summary r) =
           (if Data r = [] then 0
            else round1 (real (length (filter (\<lambda>p. SameDir p = 1) (Data r)))
                         / real (length (Data r)) * 100))"
proof -
  from assms obtain dateOf dowOf
    where r: "r = analyzeWith dateOf dowOf G daily minGap years ticker"
    by (rule either_analyzeWith)
  have each: "Direction p = sign (gapOf p) \<and>
            (SameDir p = 0 \<or> SameDir p = 1) \<and>
            (SameDir p = 1 \<longleftrightarrow>
               sign (retOf p) = Direction p \<and> Direction p \<noteq> 0 \<and> retOf p \<noteq> 0) \<and>
            (retOf p = 0 \<longrightarrow> SameDir p = 0)"
    if "p \<in> set (Data r)" for p
  proof -
    from that obtain i where
      p: "p = pointOf dateOf dowOf (defaultBins G minGap) (daily ! i) (daily ! Suc i)"
      unfolding r using analyzeWith_origin by blast
    have d: "Direction p = sign (gapOf p)"
      and s: "SameDir p = (if sign (retOf p) = Direction p \<and> Direction p \<noteq> 0 \<and> retOf p \<noteq> 0
                           then 1 else 0)"
      unfolding p by (rule pointOf_flags)+
    from d s show ?thesis by (simp split: if_splits)
  qed
  have rate: "Summary.ContinuationRate (Summary r) =
           (if Data r = [] then 0
            else round1 (real (length (filter (\<lambda>p. SameDir p = 1) (Data r)))
                         / real (length (Data r)) * 100))"
    unfolding r by (simp add: Summary_ContinuationRate Let_def)
  from each rate show ?thesis by blast
qed

text \<open>
  Claim C6.  Every emitted daily event comes from a consecutive pair of bars
  \<open>daily ! i\<close> (the prior session) and \<open>daily ! Suc i\<close> (the day); its gap-filled flag is 0
  or 1, and it is 1 exactly when the direction is +1 and the day's low is at most the prior
  close, or the direction is -1 and the day's high is at least the prior close.
\<close>

theorem C6_gap_filled_flag:
  assumes "r = fst (analyzeDaily G daily minGap years ticker) \<or>
           r = analyzeGaps G daily minGap years ticker"
  shows "\<forall>p\<in>set (Data r).
           \<exists>i. Suc i < length daily \<and>
             PrevClose p = barC (daily ! i) \<and>
             Open p = barO (daily ! Suc i) \<and> Close p = barC (daily ! Suc i) \<and>
             Direction p = sign (gapOf p) \<and>
             (Filled p = 0 \<or> Filled p = 1) \<and>
             (Filled p = 1 \<longleftrightarrow>
                (Direction p = 1 \<and> barL (daily ! Suc i) \<le> barC (daily ! i)) \<or>
                (Direction p = - 1 \<and> barH (daily ! Suc i) \<ge> barC (daily ! i)))"
proof
  fix p
  assume "p \<in> set (Data r)"
  from assms obtain dateOf dowOf
    where r: "r = analyzeWith dateOf dowOf G daily minGap years ticker"
    by (rule either_analyzeWith)
  from \<open>p \<in> set (Data r)\<close> obtain i where i: "Suc i < length daily"
    and p: "p = pointOf dateOf dowOf (defaultBins G minGap) (daily ! i) (daily ! Suc i)"
    unfolding r using analyzeWith_origin by blast
  have d: "Direction p = sign (gapOf p)"
    and f: "Filled p =
       (if (Direction p = 1 \<and> barL (daily ! Suc i) \<le> barC (daily ! i))
           \<or> (Direction p = - 1 \<and> barH (daily ! Suc i) \<ge> barC (daily ! i)) then 1 else 0)"
    unfolding p by (rule pointOf_flags)+
  have raw: "PrevClose p = barC (daily ! i)" "Open p = barO (daily ! Suc i)"
    "Close p = barC (daily ! Suc i)"
    unfolding p by (simp_all add: pointOf_simps)
  have "Filled p = 0 \<or> Filled p = 1"
    and "Filled p = 1 \<longleftrightarrow>
                (Direction p = 1 \<and> barL (daily ! Suc i) \<le> barC (daily ! i)) \<or>
                (Direction p = - 1 \<and> barH (daily ! Suc i) \<ge> barC (daily ! i))"
    using f by (simp_all split: if_splits)
  with i raw d
  show "\<exists>i. Suc i < length daily \<and>
             PrevClose p = barC (daily ! i) \<and>
             Open p = barO (daily ! Suc i) \<and> Close p = barC (daily ! Suc i) \<and>
             Direction p = sign (gapOf p) \<and>
             (Filled p = 0 \<or> Filled p = 1) \<and>
             (Filled p = 1 \<longleftrightarrow>
                (Direction p = 1 \<and> barL (daily ! Suc i) \<le> barC (daily ! i)) \<or>
                (Direction p = - 1 \<and> barH (daily ! Suc i) \<ge> barC (daily ! i)))"
    by blast
qed

lemma flatDay_flags:
  "map (\<lambda>p. (Direction p, retOf p, SameDir p))
     (Data (fst (analyzeDaily jan2024 flatDayBars 0.3 3 ''AAPL''))) = [(1, 0, 0), (- 1, - 1, 1)]"
  by code_simp

theorem C5_continuation_flag_witness:
  "map (\<lambda>p. (Direction p, retOf p, SameDir p))
     (Data (fst (analyzeDaily jan2024 flatDayBars 0.3 3 ''AAPL''))) = [(1, 0, 0), (- 1, - 1, 1)] \<and>
   Direction (hd (Data (fst (analyzeDaily jan2024 flatDayBars 0.3 3 ''AAPL'')))) =
     sign (gapOf (hd (Data (fst (analyzeDaily jan2024 flatDayBars 0.3 3 ''AAPL''))))) \<and>
   SameDir (hd (Data (fst (analyzeDaily jan2024 flatDayBars 0.3 3 ''AAPL'')))) = 0 \<and>
   Summary.ContinuationRate (Summary (fst (analyzeDaily jan2024 flatDayBars 0.3 3 ''AAPL''))) = 50"
proof -
  let ?r = "fst (analyzeDaily jan2024 flatDayBars 0.3 3 ''AAPL'')"
  have two: "Data ?r \<noteq> []" "length (Data ?r) = 2"
    "length (filter (\<lambda>p. SameDir p = 1) (Data ?r)) = 1"
    using flatDay_flags by (auto simp: map_eq_Cons_conv)
  have hd_in: "hd (Data ?r) \<in> set (Data ?r)"
    using two(1) by simp
  have flat: "retOf (hd (Data ?r)) = 0"
    using flatDay_flags by (auto simp: map_eq_Cons_conv)
  have r50: "round1 (1 / 2 * 100) = 50"
    by (simp add: round1_def math_Round_def)
  from C5_continuation_flag[OF disjI1[OF refl], of jan2024 flatDayBars "0.3" 3 "''AAPL''"]
  have all: "\<forall>p\<in>set (Data ?r).
            Direction p = sign (gapOf p) \<and>
            (SameDir p = 0 \<or> SameDir p = 1) \<and>
            (SameDir p = 1 \<longleftrightarrow>
               sign (retOf p) = Direction p \<and> Direction p \<noteq> 0 \<and> retOf p \<noteq> 0) \<and>
            (retOf p = 0 \<longrightarrow> SameDir p = 0)"
    and rate: "Summary.ContinuationRate (Summary ?r) =
           (if Data ?r = [] then 0
            else round1 (real (length (filter (\<lambda>p. SameDir p = 1) (Data ?r)))
                         / real (length (Data ?r)) * 100))"
    by blast+
  from all hd_in flat have "Direction (hd (Data ?r)) = sign (gapOf (hd (Data ?r)))"
    "SameDir (hd (Data ?r)) = 0"
    by blast+
  moreover from rate two r50 have "Summary.ContinuationRate (Summary ?r) = 50"
    by simp
  ultimately show ?thesis using flatDay_flags by blast
qed

lemma fill_flags:
  "map (\<lambda>p. (Direction p, Filled p))
     (Data (fst (analyzeDaily jan2024 fillBars 0.3 3 ''AAPL''))) = [(1, 1), (- 1, 0)]"
  by code_simp

theorem C6_gap_filled_flag_witness:
  "map (\<lambda>p. (Direction p, Filled p))
     (Data (fst (analyzeDaily jan2024 fillBars 0.3 3 ''AAPL''))) = [(1, 1), (- 1, 0)] \<and>
   barL (fillBars ! 1) \<le> barC (fillBars ! 0) \<and>
   \<not> barH (fillBars ! 2) \<ge> barC (fillBars ! 1) \<and>
   (\<exists>i. Suc i < length fillBars \<and>
      PrevClose (hd (Data (fst (analyzeDaily jan2024 fillBars 0.3 3 ''AAPL''))))
        = barC (fillBars ! i) \<and>
      barL (fillBars ! Suc i) \<le> barC (fillBars ! i) \<and>
      Filled (hd (Data (fst (analyzeDaily jan2024 fillBars 0.3 3 ''AAPL'')))) = 1)"
proof -
  let ?r = "fst (analyzeDaily jan2024 fillBars 0.3 3 ''AAPL'')"
  have hd_in: "hd (Data ?r) \<in> set (Data ?r)"
    and hd_flags: "Direction (hd (Data ?r)) = 1" "Filled (hd (Data ?r)) = 1"
    using fill_flags by (auto simp: map_eq_Cons_conv)
  have bars: "barL (fillBars ! 1) \<le> barC (fillBars ! 0)"
    "\<not> barH (fillBars ! 2) \<ge> barC (fillBars ! 1)"
    by (simp_all add: fillBars_def bar_def)
  from C6_gap_filled_flag[OF disjI1[OF refl], of jan2024 fillBars "0.3" 3 "''AAPL''"] hd_in
  obtain i where i: "Suc i < length fillBars"
    "PrevClose (hd (Data ?r)) = barC (fillBars ! i)"
    "Filled (hd (Data ?r)) = 1 \<longleftrightarrow>
       (Direction (hd (Data ?r)) = 1 \<and> barL (fillBars ! Suc i) \<le> barC (fillBars ! i)) \<or>
       (Direction (hd (Data ?r)) = - 1 \<and> barH (fillBars ! Suc i) \<ge> barC (fillBars ! i))"
    by blast
  from i(3) hd_flags have "barL (fillBars ! Suc i) \<le> barC (fillBars ! i)"
    by simp
  with i(1,2) hd_flags(2) bars fill_flags show ?thesis by blast
qed

section \<open>The accumulators as functions of the events\<close>

lemma math_Round_sign:
  "0 \<le> x \<Longrightarrow> 0 \<le> math_Round x" "x \<le> 0 \<Longrightarrow> math_Round x \<le> 0"
proof -
  show "0 \<le> math_Round x" if "0 \<le> x"
    using that by (simp add: math_Round_def)
  show "math_Round x \<le> 0" if "x \<le> 0"
  proof (cases "x < 0")
    case True
    then have "0 \<le> \<lfloor>- x + 1 / 2\<rfloor>" by simp
    with True show ?thesis by (simp add: math_Round_def)
  next
    case False
    with that have "x = 0" by simp
    then show ?thesis by (simp add: math_Round_def)
  qed
qed

lemma round2_sign:
  "0 \<le> x \<Longrightarrow> 0 \<le> round2 x" "x \<le> 0 \<Longrightarrow> round2 x \<le> 0"
  using math_Round_sign[of "x * 100"]
  by (simp_all add: round2_def mult_nonneg_nonpos2 mult_le_0_iff)

lemma round2_zero: "round2 0 = 0"
  by (simp add: round2_def math_Round_def)

lemma round3_zero: "round3 0 = 0"
  by (simp add: round3_def math_Round_def)

lemma maxGapUp_addPoint: "maxGapUp (addPoint p s) = max (maxGapUp s) (gapOf p)"
  by (simp add: addPoint_def max_def)

lemma maxGapDown_addPoint: "maxGapDown (addPoint p s) = min (maxGapDown s) (gapOf p)"
  by (simp add: addPoint_def min_def)

lemma maxGapUp_fold:
  "maxGapUp (fold addPoint evs s) = Max (insert (maxGapUp s) (gapOf ` set evs))"
proof (induction evs arbitrary: s)
  case Nil
  show ?case by simp
next
  case (Cons p evs)
  have "Max (insert (max (maxGapUp s) (gapOf p)) (gapOf ` set evs)) =
        Max (insert (maxGapUp s) (insert (gapOf p) (gapOf ` set evs)))"
    by (cases "evs = []") (simp_all add: max.assoc)
  then show ?case by (simp add: Cons.IH maxGapUp_addPoint)
qed

lemma maxGapDown_fold:
  "maxGapDown (fold addPoint evs s) = Min (insert (maxGapDown s) (gapOf ` set evs))"
proof (induction evs arbitrary: s)
  case Nil
  show ?case by simp
next
  case (Cons p evs)
  have "Min (insert (min (maxGapDown s) (gapOf p)) (gapOf ` set evs)) =
        Min (insert (maxGapDown s) (insert (gapOf p) (gapOf ` set evs)))"
    by (cases "evs = []") (simp_all add: min.assoc)
  then show ?case by (simp add: Cons.IH maxGapDown_addPoint)
qed

lemma Summary_MaxGap:
  "MaxGapUp (Summary (analyzeWith dateOf dowOf G daily minGap years ticker)) =
     round2 (Max (insert 0 (gapOf ` set (Data (analyzeWith dateOf dowOf G daily minGap years ticker)))))"
  "MaxGapDown (Summary (analyzeWith dateOf dowOf G daily minGap years ticker)) =
     round2 (Min (insert 0 (gapOf ` set (Data (analyzeWith dateOf dowOf G daily minGap years ticker)))))"
proof -
  show "MaxGapUp (Summary (analyzeWith dateOf dowOf G daily minGap years ticker)) =
     round2 (Max (insert 0 (gapOf ` set (Data (analyzeWith dateOf dowOf G daily minGap years ticker)))))"
  proof (cases "length daily < 2")
    case True
    then show ?thesis by (simp add: analyzeWith_short Summary0_def round2_zero)
  next
    case False
    then show ?thesis
      by (simp add: analyzeWith_def Let_def dailyLoop_fold points_fold maxGapUp_fold dailyInit_def)
  qed
  show "MaxGapDown (Summary (analyzeWith dateOf dowOf G daily minGap years ticker)) =
     round2 (Min (insert 0 (gapOf ` set (Data (analyzeWith dateOf dowOf G daily minGap years ticker)))))"
  proof (cases "length daily < 2")
    case True
    then show ?thesis by (simp add: analyzeWith_short Summary0_def round2_zero)
  next
    case False
    then show ?thesis
      by (simp add: analyzeWith_def Let_def dailyLoop_fold points_fold maxGapDown_fold dailyInit_def)
  qed
qed

text \<open>
  Claim C10.  For every bar sequence the summary has \<open>MaxGapUp \<ge> 0\<close> and
  \<open>MaxGapDown \<le> 0\<close>: they are the rounded maximum and minimum of 0 and the unrounded gap
  percentages of the events.  When no event has a positive gap, \<open>MaxGapUp\<close> is exactly 0,
  and when no event has a negative gap, \<open>MaxGapDown\<close> is exactly 0.
\<close>

theorem C10_max_gap_bounds:
  assumes "r = fst (analyzeDaily G daily minGap years ticker) \<or>
           r = analyzeGaps G daily minGap years ticker"
  shows "0 \<le> MaxGapUp (Summary r) \<and> MaxGapDown (Summary r) \<le> 0 \<and>
         MaxGapUp (Summary r) = round2 (Max (insert 0 (gapOf ` set (Data r)))) \<and>
         MaxGapDown (Summary r) = round2 (Min (insert 0 (gapOf ` set (Data r)))) \<and>
         ((\<forall>p\<in>set (Data r). gapOf p \<le> 0) \<longrightarrow> MaxGapUp (Summary r) = 0) \<and>
         ((\<forall>p\<in>set (Data r). 0 \<le> gapOf p) \<longrightarrow> MaxGapDown (Summary r) = 0)"
proof -
  from assms obtain dateOf dowOf
    where r: "r = analyzeWith dateOf dowOf G daily minGap years ticker"
    by (rule either_analyzeWith)
  let ?S = "insert 0 (gapOf ` set (Data r))"
  have fin: "finite ?S" "?S \<noteq> {}" by simp_all
  have up: "MaxGapUp (Summary r) = round2 (Max ?S)"
    and down: "MaxGapDown (Summary r) = round2 (Min ?S)"
    unfolding r by (rule Summary_MaxGap)+
  have "0 \<le> Max ?S" "Min ?S \<le> 0"
    using fin by (simp_all add: Max_ge_iff Min_le_iff)
  then have sgn: "0 \<le> MaxGapUp (Summary r)" "MaxGapDown (Summary r) \<le> 0"
    unfolding up down by (simp_all add: round2_sign)
  have noup: "MaxGapUp (Summary r) = 0" if "\<forall>p\<in>set (Data r). gapOf p \<le> 0"
  proof -
    have "Max ?S = 0"
      by (rule Max_eqI) (use that in auto)
    then show ?thesis unfolding up by (simp add: round2_zero)
  qed
  have nodown: "MaxGapDown (Summary r) = 0" if "\<forall>p\<in>set (Data r). 0 \<le> gapOf p"
  proof -
    have "Min ?S = 0"
      by (rule Min_eqI) (use that in auto)
    then show ?thesis unfolding down by (simp add: round2_zero)
  qed
  from sgn up down noup nodown show ?thesis by blast
qed

lemma gapDown_gaps:
  "map gapOf (Data (fst (analyzeDaily jan2024 gapDownBars 0.3 3 ''AAPL''))) = [- 1, - (50 / 49)]"
  by code_simp

lemma gapDown_min:
  "MaxGapDown (Summary (fst (analyzeDaily jan2024 gapDownBars 0.3 3 ''AAPL''))) = - (51 / 50)"
  by code_simp

theorem C10_max_gap_bounds_witness:
  "map gapOf (Data (fst (analyzeDaily jan2024 gapDownBars 0.3 3 ''AAPL''))) = [- 1, - (50 / 49)] \<and>
   MaxGapUp (Summary (fst (analyzeDaily jan2024 gapDownBars 0.3 3 ''AAPL''))) = 0 \<and>
   MaxGapDown (Summary (fst (analyzeDaily jan2024 gapDownBars 0.3 3 ''AAPL''))) = - (51 / 50)"
proof -
  let ?r = "fst (analyzeDaily jan2024 gapDownBars 0.3 3 ''AAPL'')"
  have S: "gapOf ` set (Data ?r) = {- 1, - (50 / 49)}"
    using arg_cong[OF gapDown_gaps, of set] by simp
  have neg: "\<forall>p\<in>set (Data ?r). gapOf p \<le> 0"
  proof
    fix p
    assume "p \<in> set (Data ?r)"
    then have "gapOf p \<in> gapOf ` set (Data ?r)" by (rule imageI)
    then have "gapOf p \<in> {- 1, - (50 / 49)}" unfolding S .
    then show "gapOf p \<le> 0" by auto
  qed
  from C10_max_gap_bounds[OF disjI1[OF refl], of jan2024 gapDownBars "0.3" 3 "''AAPL''"] neg
  have "MaxGapUp (Summary ?r) = 0" by blast
  with gapDown_gaps gapDown_min show ?thesis by blast
qed

section \<open>Weekday and bin accumulators\<close>

lemma count_fold_aggAdd: "count (fold (aggAdd) ps a) = count a + int (length ps)"
  by (induction ps arbitrary: a) (simp_all add: aggAdd_def)

lemma cont_fold_aggAdd:
  "cont (fold aggAdd ps a) = cont a + int (length (filter (\<lambda>p. SameDir p = 1) ps))"
  by (induction ps arbitrary: a) (simp_all add: aggAdd_def)

lemma count_fold_aggAddFill: "count (fold aggAddFill ps a) = count a + int (length ps)"
  by (induction ps arbitrary: a) (simp_all add: aggAdd_def aggAddFill_def)

lemma cont_fold_aggAddFill:
  "cont (fold aggAddFill ps a) = cont a + int (length (filter (\<lambda>p. SameDir p = 1) ps))"
  by (induction ps arbitrary: a) (simp_all add: aggAdd_def aggAddFill_def)

lemma dowAgg_addPoint:
  "dowAgg (addPoint p s) k =
     (if DayOfWeek p = k then map_option (aggAdd p) (dowAgg s k) else dowAgg s k)"
  by (simp add: addPoint_def split: option.split)

lemma binAgg_addPoint:
  "binAgg (addPoint p s) k =
     (if Bin p = k then map_option (aggAddFill p) (binAgg s k) else binAgg s k)"
  by (simp add: addPoint_def split: option.split)

lemma dowAgg_fold:
  "dowAgg (fold addPoint evs s) k =
     map_option (fold aggAdd (filter (\<lambda>p. DayOfWeek p = k) evs)) (dowAgg s k)"
proof (induction evs arbitrary: s)
  case Nil
  show ?case by (simp add: option.map_ident)
next
  case (Cons p evs)
  show ?case
    by (cases "dowAgg s k") (simp_all add: Cons.IH dowAgg_addPoint)
qed

lemma binAgg_fold:
  "binAgg (fold addPoint evs s) k =
     map_option (fold aggAddFill (filter (\<lambda>p. Bin p = k) evs)) (binAgg s k)"
proof (induction evs arbitrary: s)
  case Nil
  show ?case by (simp add: option.map_ident)
next
  case (Cons p evs)
  show ?case
    by (cases "binAgg s k") (simp_all add: Cons.IH binAgg_addPoint)
qed

lemma dowAgg_init:
  "dowAgg (dailyInit bins) k =
     (if k \<in> {''Mon'', ''Tue'', ''Wed'', ''Thu'', ''Fri''} then Some agg0 else None)"
  by (simp add: dailyInit_def)

lemma ByDOW_analyzeWith:
  assumes "2 \<le> length daily"
  shows "ByDOW (analyzeWith dateOf dowOf G daily minGap years ticker) k =
     (if k \<in> {''Mon'', ''Tue'', ''Wed'', ''Thu'', ''Fri''}
      then Some (dowStatOf (fold aggAdd
             (filter (\<lambda>p. DayOfWeek p = k)
                (Data (analyzeWith dateOf dowOf G daily minGap years ticker))) agg0))
      else None)"
proof -
  from assms have len: "\<not> length daily < 2" by simp
  show ?thesis
    unfolding Data_analyzeWith
    by (simp add: len analyzeWith_def Let_def dailyLoop_fold dowAgg_fold dowAgg_init
        del: insert_iff)
qed

lemma dowStatOf_agg0:
  "dowStatOf agg0 = \<lparr>DowStat.Count = 0, DowStat.ContinuationRate = 0,
     DowStat.FadeAvg = 0, DowStat.FollowAvg = 0\<rparr>"
  by (simp add: dowStatOf_def agg0_def rate_def avg_def)

lemma Count_dowStatOf_fold:
  "DowStat.Count (dowStatOf (fold aggAdd ps agg0)) = int (length ps)"
  by (simp add: dowStatOf_def count_fold_aggAdd agg0_def)

text \<open>
  Claim C8.  For a bar sequence of length at least 2, the keys of the daily by-weekday map
  are exactly \<open>Mon\<close>, \<open>Tue\<close>, \<open>Wed\<close>, \<open>Thu\<close> and \<open>Fri\<close>.  The entry of a weekday counts the
  events labelled with that weekday, and for a weekday without events the entry has count
  0, continuation rate 0 and both averages 0.
\<close>

theorem C8_weekday_keys:
  assumes "2 \<le> length daily"
    and "r = fst (analyzeDaily G daily minGap years ticker) \<or>
         r = analyzeGaps G daily minGap years ticker"
  shows "dom (ByDOW r) = {''Mon'', ''Tue'', ''Wed'', ''Thu'', ''Fri''} \<and>
         (\<forall>k\<in>{''Mon'', ''Tue'', ''Wed'', ''Thu'', ''Fri''}.
            \<exists>d. ByDOW r k = Some d \<and>
              DowStat.Count d = int (length (filter (\<lambda>p. DayOfWeek p = k) (Data r))) \<and>
              ((\<forall>p\<in>set (Data r). DayOfWeek p \<noteq> k) \<longrightarrow>
                 d = \<lparr>DowStat.Count = 0, DowStat.ContinuationRate = 0,
                       DowStat.FadeAvg = 0, DowStat.FollowAvg = 0\<rparr>))"
proof -
  let ?days = "{''Mon'', ''Tue'', ''Wed'', ''Thu'', ''Fri''}"
  from assms(2) obtain dateOf dowOf
    where r: "r = analyzeWith dateOf dowOf G daily minGap years ticker"
    by (rule either_analyzeWith)
  have by_dow: "ByDOW r k =
     (if k \<in> ?days
      then Some (dowStatOf (fold aggAdd (filter (\<lambda>p. DayOfWeek p = k) (Data r)) agg0))
      else None)" for k
    unfolding r by (rule ByDOW_analyzeWith[OF assms(1)])
  have keys: "dom (ByDOW r) = ?days"
  proof (rule set_eqI)
    fix k
    show "k \<in> dom (ByDOW r) \<longleftrightarrow> k \<in> ?days"
      unfolding dom_def mem_Collect_eq by_dow[of k] by (simp del: insert_iff)
  qed
  have entry: "\<exists>d. ByDOW r k = Some d \<and>
              DowStat.Count d = int (length (filter (\<lambda>p. DayOfWeek p = k) (Data r))) \<and>
              ((\<forall>p\<in>set (Data r). DayOfWeek p \<noteq> k) \<longrightarrow>
                 d = \<lparr>DowStat.Count = 0, DowStat.ContinuationRate = 0,
                       DowStat.FadeAvg = 0, DowStat.FollowAvg = 0\<rparr>)"
    if k: "k \<in> ?days" for k
  proof -
    let ?d = "dowStatOf (fold aggAdd (filter (\<lambda>p. DayOfWeek p = k) (Data r)) agg0)"
    have 1: "ByDOW r k = Some ?d"
      unfolding by_dow[of k] using k by (simp only: if_True)
    have 2: "DowStat.Count ?d = int (length (filter (\<lambda>p. DayOfWeek p = k) (Data r)))"
      by (rule Count_dowStatOf_fold)
    have 3: "?d = \<lparr>DowStat.Count = 0, DowStat.ContinuationRate = 0,
                       DowStat.FadeAvg = 0, DowStat.FollowAvg = 0\<rparr>"
      if "\<forall>p\<in>set (Data r). DayOfWeek p \<noteq> k"
    proof -
      from that have "filter (\<lambda>p. DayOfWeek p = k) (Data r) = []"
        by (simp add: filter_empty_conv)
      then show ?thesis by (simp add: dowStatOf_agg0)
    qed
    from 1 2 3 show ?thesis by blast
  qed
  from keys entry show ?thesis by blast
qed

lemma demo_weekdays:
  "map DayOfWeek (Data (fst (analyzeDaily jan2024 demoBars 0.3 3 ''AAPL''))) = [''Wed'', ''Thu'']"
  by code_simp

theorem C8_weekday_keys_witness:
  "2 \<le> length demoBars \<and>
   map DayOfWeek (Data (fst (analyzeDaily jan2024 demoBars 0.3 3 ''AAPL''))) = [''Wed'', ''Thu''] \<and>
   dom (ByDOW (fst (analyzeDaily jan2024 demoBars 0.3 3 ''AAPL''))) =
     {''Mon'', ''Tue'', ''Wed'', ''Thu'', ''Fri''} \<and>
   ByDOW (fst (analyzeDaily jan2024 demoBars 0.3 3 ''AAPL'')) ''Mon'' =
     Some \<lparr>DowStat.Count = 0, DowStat.ContinuationRate = 0,
           DowStat.FadeAvg = 0, DowStat.FollowAvg = 0\<rparr>"
proof -
  let ?r = "fst (analyzeDaily jan2024 demoBars 0.3 3 ''AAPL'')"
  have len: "2 \<le> length demoBars"
    by (simp add: demoBars_def)
  have S: "DayOfWeek ` set (Data ?r) = {''Wed'', ''Thu''}"
    using arg_cong[OF demo_weekdays, of set] by simp
  have noMon: "\<forall>p\<in>set (Data ?r). DayOfWeek p \<noteq> ''Mon''"
  proof
    fix p
    assume "p \<in> set (Data ?r)"
    then have "DayOfWeek p \<in> DayOfWeek ` set (Data ?r)" by (rule imageI)
    then have "DayOfWeek p \<in> {''Wed'', ''Thu''}" unfolding S .
    then show "DayOfWeek p \<noteq> ''Mon''" by auto
  qed
  have mon: "''Mon'' \<in> {''Mon'', ''Tue'', ''Wed'', ''Thu'', ''Fri''}"
    by simp
  note th = C8_weekday_keys[OF len disjI1[OF refl], of jan2024 "0.3" 3 "''AAPL''"]
  from th have keys: "dom (ByDOW ?r) = {''Mon'', ''Tue'', ''Wed'', ''Thu'', ''Fri''}"
    by (rule conjunct1)
  from th[THEN conjunct2, THEN bspec, OF mon] noMon
  have "ByDOW ?r ''Mon'' = Some \<lparr>DowStat.Count = 0, DowStat.ContinuationRate = 0,
           DowStat.FadeAvg = 0, DowStat.FollowAvg = 0\<rparr>"
    by (elim exE conjE) simp
  with len demo_weekdays keys show ?thesis by (intro conjI)
qed

section \<open>Cumulative series\<close>

lemma cumDates_fold: "cumDates (fold addPoint evs s) = cumDates s @ map Date evs"
  by (induction evs arbitrary: s) (simp_all add: addPoint_def)

lemma followSum_fold:
  "followSum (fold addPoint evs s) = followSum s + sum_list (map followRetOf evs)"
  by (induction evs arbitrary: s) (simp_all add: addPoint_def)

lemma fadeSum_fold:
  "fadeSum (fold addPoint evs s) = fadeSum s + sum_list (map fadeRetOf evs)"
  by (induction evs arbitrary: s) (simp_all add: addPoint_def)

lemma cumFollowArr_fold:
  "cumFollowArr (fold addPoint evs s) =
     cumFollowArr s @
     map (\<lambda>k. round3 (cumFollow s + sum_list (map followRetOf (take (Suc k) evs))))
       [0..<length evs]"
proof (induction evs arbitrary: s)
  case Nil
  show ?case by simp
next
  case (Cons p evs)
  have 1: "cumFollowArr (addPoint p s) = cumFollowArr s @ [round3 (cumFollow s + followRetOf p)]"
    and 2: "cumFollow (addPoint p s) = cumFollow s + followRetOf p"
    by (simp_all add: addPoint_def)
  show ?case
    by (simp add: Cons.IH 1 2 map_upt_Suc add.assoc del: upt_Suc)
qed

lemma cumFadeArr_fold:
  "cumFadeArr (fold addPoint evs s) =
     cumFadeArr s @
     map (\<lambda>k. round3 (cumFade s + sum_list (map fadeRetOf (take (Suc k) evs))))
       [0..<length evs]"
proof (induction evs arbitrary: s)
  case Nil
  show ?case by simp
next
  case (Cons p evs)
  have 1: "cumFadeArr (addPoint p s) = cumFadeArr s @ [round3 (cumFade s + fadeRetOf p)]"
    and 2: "cumFade (addPoint p s) = cumFade s + fadeRetOf p"
    by (simp_all add: addPoint_def)
  show ?case
    by (simp add: Cons.IH 1 2 map_upt_Suc add.assoc del: upt_Suc)
qed

lemma Cum_analyzeWith:
  fixes dateOf dowOf G daily minGap years ticker
  defines "r \<equiv> analyzeWith dateOf dowOf G daily minGap years ticker"
  shows "CumDates r = map Date (Data r)"
    and "CumFollow r =
      map (\<lambda>k. round3 (sum_list (map followRetOf (take (Suc k) (Data r))))) [0..<length (Data r)]"
    and "CumFade r =
      map (\<lambda>k. round3 (sum_list (map fadeRetOf (take (Suc k) (Data r))))) [0..<length (Data r)]"
    and "Summary.Sessions (Summary r) = int (length (Data r))"
    and "Data r \<noteq> [] \<Longrightarrow> Summary.FollowAvg (Summary r) =
           round3 (sum_list (map followRetOf (Data r)) / real (length (Data r)))"
    and "Data r \<noteq> [] \<Longrightarrow> Summary.FadeAvg (Summary r) =
           round3 (sum_list (map fadeRetOf (Data r)) / real (length (Data r)))"
proof -
  show "CumDates r = map Date (Data r)"
    unfolding r_def
    by (cases "length daily < 2")
      (simp_all add: analyzeWith_short, simp add: analyzeWith_def Let_def dailyLoop_fold
        points_fold cumDates_fold dailyInit_def)
  show "CumFollow r =
      map (\<lambda>k. round3 (sum_list (map followRetOf (take (Suc k) (Data r))))) [0..<length (Data r)]"
    unfolding r_def
    by (cases "length daily < 2")
      (simp_all add: analyzeWith_short, simp add: analyzeWith_def Let_def dailyLoop_fold
        points_fold cumFollowArr_fold dailyInit_def)
  show "CumFade r =
      map (\<lambda>k. round3 (sum_list (map fadeRetOf (take (Suc k) (Data r))))) [0..<length (Data r)]"
    unfolding r_def
    by (cases "length daily < 2")
      (simp_all add: analyzeWith_short, simp add: analyzeWith_def Let_def dailyLoop_fold
        points_fold cumFadeArr_fold dailyInit_def)
  show "Summary.Sessions (Summary r) = int (length (Data r))"
    unfolding r_def
    by (cases "length daily < 2")
      (simp_all add: analyzeWith_short Summary0_def, simp add: analyzeWith_def Let_def)
  show "Summary.FollowAvg (Summary r) =
           round3 (sum_list (map followRetOf (Data r)) / real (length (Data r)))"
    if "Data r \<noteq> []"
    using that unfolding r_def
    by (cases "length daily < 2")
      (simp_all add: analyzeWith_short, simp add: analyzeWith_def Let_def dailyLoop_fold
        points_fold followSum_fold dailyInit_def)
  show "Summary.FadeAvg (Summary r) =
           round3 (sum_list (map fadeRetOf (Data r)) / real (length (Data r)))"
    if "Data r \<noteq> []"
    using that unfolding r_def
    by (cases "length daily < 2")
      (simp_all add: analyzeWith_short, simp add: analyzeWith_def Let_def dailyLoop_fold
        points_fold fadeSum_fold dailyInit_def)
qed

lemma Date_eventsOf:
  "set (map Date (eventsOf dateOf dowOf minGap bins prev days)) \<subseteq> (\<lambda>b. dateOf (barT b)) ` set days"
  by (induction days arbitrary: prev) (auto simp: pointOf_simps)

lemma sorted_eventsOf:
  "sorted (map (\<lambda>b. dateOf (barT b)) days) \<Longrightarrow>
   sorted (map Date (eventsOf dateOf dowOf minGap bins prev days))"
proof (induction days arbitrary: prev)
  case Nil
  show ?case by simp
next
  case (Cons day rest)
  from Cons.prems have rest: "sorted (map (\<lambda>b. dateOf (barT b)) rest)"
    and le: "\<forall>x\<in>set rest. dateOf (barT day) \<le> dateOf (barT x)"
    by simp_all
  have "\<forall>d\<in>set (map Date (eventsOf dateOf dowOf minGap bins day rest)). dateOf (barT day) \<le> d"
    using Date_eventsOf[of dateOf dowOf minGap bins day rest] le by auto
  with Cons.IH[OF rest, of day] show ?case
    by (simp add: pointOf_simps)
qed

lemma sorted_CumDates:
  assumes "sorted (map barT daily)" and "mono dateOf"
  shows "sorted (CumDates (analyzeWith dateOf dowOf G daily minGap years ticker))"
proof (cases "length daily < 2")
  case True
  then show ?thesis by (simp add: analyzeWith_short)
next
  case False
  have "sorted (map (\<lambda>b. dateOf (barT b)) daily)"
    using assms by (simp add: sorted_map sorted_wrt_iff_nth_less mono_def)
  then have "sorted (map (\<lambda>b. dateOf (barT b)) (tl daily))"
    by (cases daily) simp_all
  from sorted_eventsOf[OF this] False show ?thesis
    by (simp add: Cum_analyzeWith(1) Data_analyzeWith)
qed

lemma either_analyzeWith_date:
  assumes "r = fst (analyzeDaily G daily minGap years ticker) \<or>
           r = analyzeGaps G daily minGap years ticker"
  obtains dateOf dowOf where "r = analyzeWith dateOf dowOf G daily minGap years ticker"
    and "dateOf = sessionDateNYFromDaily G \<or> dateOf = dateNY G"
  using assms by (auto simp: analyzeDaily_fst analyzeGaps_def)

lemma mono_dateOf:
  assumes "mono (nyDate G)"
    and "dateOf = sessionDateNYFromDaily G \<or> dateOf = dateNY G"
  shows "mono dateOf"
proof (rule monoI)
  fix a b :: int
  assume "a \<le> b"
  then have "nyDate G a \<le> nyDate G b" "nyDate G (a + 86400000) \<le> nyDate G (b + 86400000)"
    using assms(1) by (simp_all add: mono_def)
  with assms(2) show "dateOf a \<le> dateOf b"
    by (auto simp: sessionDateNYFromDaily_def dateNY_def)
qed

text \<open>
  Claim C3, as the code has it.  The cumulative series have one entry per event, in the
  order of the events: \<open>CumDates\<close> lists the session dates of the events, and it is ascending
  when the bars are in ascending time order (the calendar being monotone).  Entry \<open>k\<close> of
  \<open>CumFollow\<close> (of \<open>CumFade\<close>) is the plain sum of the follow (fade) returns of the events
  \<open>0..k\<close>, rounded to three decimals; nothing is compounded.  So with at least one event
  the last entries are the total follow and fade sums rounded to three decimals, and the
  summary's \<open>FollowAvg\<close> and \<open>FadeAvg\<close> are the same unrounded totals divided by the number of
  events, rounded to three decimals.
\<close>

theorem C3_cumulative_series:
  assumes "r = fst (analyzeDaily G daily minGap years ticker) \<or>
           r = analyzeGaps G daily minGap years ticker"
  shows "CumDates r = map Date (Data r) \<and>
         length (CumFollow r) = length (Data r) \<and>
         length (CumFade r) = length (Data r) \<and>
         Summary.Sessions (Summary r) = int (length (Data r)) \<and>
         (\<forall>k<length (Data r).
            CumFollow r ! k = round3 (sum_list (map followRetOf (take (Suc k) (Data r)))) \<and>
            CumFade r ! k = round3 (sum_list (map fadeRetOf (take (Suc k) (Data r))))) \<and>
         (Data r \<noteq> [] \<longrightarrow>
            last (CumFollow r) = round3 (sum_list (map followRetOf (Data r))) \<and>
            last (CumFade r) = round3 (sum_list (map fadeRetOf (Data r))) \<and>
            Summary.FollowAvg (Summary r) =
              round3 (sum_list (map followRetOf (Data r)) / real (length (Data r))) \<and>
            Summary.FadeAvg (Summary r) =
              round3 (sum_list (map fadeRetOf (Data r)) / real (length (Data r)))) \<and>
         (sorted (map barT daily) \<and> mono (nyDate G) \<longrightarrow> sorted (CumDates r))"
proof -
  from assms obtain dateOf dowOf
    where r: "r = analyzeWith dateOf dowOf G daily minGap years ticker"
      and d: "dateOf = sessionDateNYFromDaily G \<or> dateOf = dateNY G"
    by (rule either_analyzeWith_date)
  let ?n = "length (Data r)"
  have dates: "CumDates r = map Date (Data r)"
    and fo: "CumFollow r =
      map (\<lambda>k. round3 (sum_list (map followRetOf (take (Suc k) (Data r))))) [0..<?n]"
    and fa: "CumFade r =
      map (\<lambda>k. round3 (sum_list (map fadeRetOf (take (Suc k) (Data r))))) [0..<?n]"
    and sess: "Summary.Sessions (Summary r) = int ?n"
    unfolding r by (rule Cum_analyzeWith)+
  have lens: "length (CumFollow r) = ?n" "length (CumFade r) = ?n"
    by (simp_all add: fo fa)
  have nth: "CumFollow r ! k = round3 (sum_list (map followRetOf (take (Suc k) (Data r)))) \<and>
            CumFade r ! k = round3 (sum_list (map fadeRetOf (take (Suc k) (Data r))))"
    if "k < ?n" for k
    using that by (simp add: fo fa)
  have lasts: "last (CumFollow r) = round3 (sum_list (map followRetOf (Data r))) \<and>
            last (CumFade r) = round3 (sum_list (map fadeRetOf (Data r))) \<and>
            Summary.FollowAvg (Summary r) =
              round3 (sum_list (map followRetOf (Data r)) / real (length (Data r))) \<and>
            Summary.FadeAvg (Summary r) =
              round3 (sum_list (map fadeRetOf (Data r)) / real (length (Data r)))"
    if ne: "Data r \<noteq> []"
  proof -
    from ne have pos: "?n - 1 < ?n" "Suc (?n - 1) = ?n" by simp_all
    from ne lens have ne': "CumFollow r \<noteq> []" "CumFade r \<noteq> []"
      by (metis length_0_conv)+
    have "last (CumFollow r) = CumFollow r ! (?n - 1)" "last (CumFade r) = CumFade r ! (?n - 1)"
      using last_conv_nth[OF ne'(1)] last_conv_nth[OF ne'(2)] lens by simp_all
    with nth[OF pos(1)] pos(2)
    have "last (CumFollow r) = round3 (sum_list (map followRetOf (Data r)))"
      "last (CumFade r) = round3 (sum_list (map fadeRetOf (Data r)))"
      by simp_all
    moreover have "Summary.FollowAvg (Summary r) =
              round3 (sum_list (map followRetOf (Data r)) / real (length (Data r)))"
      "Summary.FadeAvg (Summary r) =
              round3 (sum_list (map fadeRetOf (Data r)) / real (length (Data r)))"
      using ne unfolding r by (rule Cum_analyzeWith)+
    ultimately show ?thesis by blast
  qed
  have sorted: "sorted (CumDates r)" if "sorted (map barT daily) \<and> mono (nyDate G)"
    unfolding r using that mono_dateOf[OF _ d] by (auto intro: sorted_CumDates)
  from dates lens sess nth lasts sorted show ?thesis by blast
qed

text \<open>
  The last entry is the rounded total, not the total: for a prior close of 100 and a
  session that opens at 101 and closes at 99, the follow return of the only event is
  \<open>- 200 / 101\<close> (about -1.980198), while the last entry of \<open>CumFollow\<close> is -1.98.
\<close>

theorem C3_rounding_counterexample:
  "Data (fst (analyzeDaily jan2024 scenarioBars 0.3 3 ''AAPL'')) \<noteq> [] \<and>
   sum_list (map followRetOf (Data (fst (analyzeDaily jan2024 scenarioBars 0.3 3 ''AAPL''))))
     = - (200 / 101) \<and>
   last (CumFollow (fst (analyzeDaily jan2024 scenarioBars 0.3 3 ''AAPL''))) = - (99 / 50) \<and>
   last (CumFollow (fst (analyzeDaily jan2024 scenarioBars 0.3 3 ''AAPL''))) \<noteq>
     sum_list (map followRetOf (Data (fst (analyzeDaily jan2024 scenarioBars 0.3 3 ''AAPL''))))"
  by code_simp

lemma mono_jan2024: "mono (nyDate jan2024)"
proof (rule monoI)
  fix a b :: int
  assume "a \<le> b"
  then show "nyDate jan2024 a \<le> nyDate jan2024 b"
    by (simp add: jan2024_def)
qed

lemma demo_dates:
  "map Date (Data (fst (analyzeDaily jan2024 demoBars 0.3 3 ''AAPL''))) =
     [''2024-01-03'', ''2024-01-04'']"
  by code_simp

theorem C3_cumulative_series_witness:
  "sorted (map barT demoBars) \<and> mono (nyDate jan2024) \<and>
   Data (fst (analyzeDaily jan2024 demoBars 0.3 3 ''AAPL'')) \<noteq> [] \<and>
   CumDates (fst (analyzeDaily jan2024 demoBars 0.3 3 ''AAPL'')) =
     [''2024-01-03'', ''2024-01-04''] \<and>
   sorted (CumDates (fst (analyzeDaily jan2024 demoBars 0.3 3 ''AAPL''))) \<and>
   length (CumFollow (fst (analyzeDaily jan2024 demoBars 0.3 3 ''AAPL''))) = 2 \<and>
   last (CumFollow (fst (analyzeDaily jan2024 demoBars 0.3 3 ''AAPL''))) =
     round3 (sum_list (map followRetOf (Data (fst (analyzeDaily jan2024 demoBars 0.3 3 ''AAPL'')))))"
proof -
  let ?r = "fst (analyzeDaily jan2024 demoBars 0.3 3 ''AAPL'')"
  have srt: "sorted (map barT demoBars)"
    by (simp add: demoBars_def bar_def)
  have ne: "Data ?r \<noteq> []" and len: "length (Data ?r) = 2"
    using arg_cong[OF demo_dates, of length] by auto
  note th = C3_cumulative_series[OF disjI1[OF refl], of jan2024 demoBars "0.3" 3 "''AAPL''"]
  from th have dates: "CumDates ?r = map Date (Data ?r)"
    and l: "length (CumFollow ?r) = length (Data ?r)"
    by blast+
  from th ne have last: "last (CumFollow ?r) = round3 (sum_list (map followRetOf (Data ?r)))"
    by blast
  from th srt mono_jan2024 have "sorted (CumDates ?r)"
    by blast
  with srt mono_jan2024 ne dates demo_dates l len last show ?thesis
    by simp
qed

section \<open>Bins\<close>

lemma labs_defaultBins:
  "map lab (defaultBins G minGap) =
     [sprintf1 G (if minGap < 0.1 then 0.1 else minGap) @ endash @ ''0.5%'',
      ''0.5'' @ endash @ ''1.0%'', ''1.0'' @ endash @ ''1.5%'', ''>1.5%'']"
  by (simp add: defaultBins_def Let_def)

lemma first_label_distinct:
  "f @ endash @ ''0.5%'' \<noteq> ''0.5'' @ endash @ ''1.0%''"
  "f @ endash @ ''0.5%'' \<noteq> ''1.0'' @ endash @ ''1.5%''"
  "f @ endash @ ''0.5%'' \<noteq> ''>1.5%''"
  "f @ endash @ ''0.5%'' \<noteq> ''other''"
proof -
  have "(f @ endash) @ ''0.5%'' \<noteq> (''0.5'' @ endash) @ ''1.0%''"
    by (subst append_eq_append_conv) simp_all
  then show "f @ endash @ ''0.5%'' \<noteq> ''0.5'' @ endash @ ''1.0%''" by simp
  have "(f @ endash) @ ''0.5%'' \<noteq> (''1.0'' @ endash) @ ''1.5%''"
    by (subst append_eq_append_conv) simp_all
  then show "f @ endash @ ''0.5%'' \<noteq> ''1.0'' @ endash @ ''1.5%''" by simp
  have "(f @ endash) @ ''0.5%'' \<noteq> ''>'' @ ''1.5%''"
    by (subst append_eq_append_conv) simp_all
  then show "f @ endash @ ''0.5%'' \<noteq> ''>1.5%''" by simp
  have "(f @ endash) @ ''0.5%'' \<noteq> ''o'' @ ''ther''"
    by (subst append_eq_append_conv) simp_all
  then show "f @ endash @ ''0.5%'' \<noteq> ''other''" by simp
qed

lemma distinct_labs: "distinct (map lab (defaultBins G minGap))"
  unfolding labs_defaultBins
  by (simp add: first_label_distinct)

lemma other_not_lab: "''other'' \<notin> set (map lab (defaultBins G minGap))"
  unfolding labs_defaultBins
  using first_label_distinct(4)[of "sprintf1 G (if minGap < 0.1 then 0.1 else minGap)"]
  by (simp add: endash_def)

lemma labelFor_range: "labelFor a bins \<in> insert ''other'' (set (map lab bins))"
  by (induction bins) auto

text \<open>
  Below the upper edge 99 of the last bin the four bins cover everything from the effective
  minimum on, and below the effective minimum nothing is covered.
\<close>

lemma labelFor_defaultBins:
  "labelFor a (defaultBins G minGap) =
     (let start = (if minGap < 0.1 then 0.1 else minGap) in
      if start \<le> a \<and> a < 0.5 then sprintf1 G start @ endash @ ''0.5%''
      else if 0.5 \<le> a \<and> a < 1 then ''0.5'' @ endash @ ''1.0%''
      else if 1 \<le> a \<and> a < 1.5 then ''1.0'' @ endash @ ''1.5%''
      else if 1.5 \<le> a \<and> a < 99 then ''>1.5%''
      else ''other'')"
  by (simp add: defaultBins_def Let_def)

lemma labelFor_covered:
  assumes "max minGap 0.1 \<le> a" and "a < 99"
  shows "labelFor a (defaultBins G minGap) \<noteq> ''other''"
proof -
  have l: "labelFor a (defaultBins G minGap) \<in> insert ''other'' (set (map lab (defaultBins G minGap)))"
    by (rule labelFor_range)
  have "labelFor a (defaultBins G minGap) \<in> set (map lab (defaultBins G minGap))"
    unfolding labelFor_defaultBins labs_defaultBins Let_def using assms
    by (auto simp: max_def split: if_splits)
  with other_not_lab[of G minGap] show ?thesis by metis
qed

lemma labelFor_beyond:
  "99 \<le> a \<Longrightarrow> labelFor a (defaultBins G minGap) = ''other''"
  "a < 0.1 \<Longrightarrow> labelFor a (defaultBins G minGap) = ''other''"
  unfolding labelFor_defaultBins Let_def by simp_all

lemma fold_upd_const:
  "fold (\<lambda>b m. m(lab b \<mapsto> z)) bins m0 k =
     (if k \<in> set (map lab bins) then Some z else m0 k)"
  by (induction bins arbitrary: m0) auto

lemma binAgg_init:
  "binAgg (dailyInit bins) k = (if k \<in> set (map lab bins) then Some agg0 else None)"
  by (simp add: dailyInit_def fold_upd_const)

lemma binStatOf_cong:
  "bagg (lab b) = bagg' (lab b) \<Longrightarrow> binStatOf bagg b = binStatOf bagg' b"
  by (simp add: binStatOf_def)

lemma Bins_analyzeWith:
  assumes "2 \<le> length daily"
  shows "Bins (analyzeWith dateOf dowOf G daily minGap years ticker) =
     map (\<lambda>b. binStatOf
            [lab b \<mapsto> fold aggAddFill
               (filter (\<lambda>p. Bin p = lab b)
                  (Data (analyzeWith dateOf dowOf G daily minGap years ticker))) agg0] b)
       (defaultBins G minGap)"
proof -
  from assms have len: "\<not> length daily < 2" by simp
  let ?bins = "defaultBins G minGap"
  let ?evs = "eventsOf dateOf dowOf minGap ?bins (hd daily) (tl daily)"
  have "binStatOf (binAgg (fold addPoint ?evs (dailyInit ?bins))) b =
        binStatOf [lab b \<mapsto> fold aggAddFill (filter (\<lambda>p. Bin p = lab b) ?evs) agg0] b"
    if "b \<in> set ?bins" for b
    by (rule binStatOf_cong) (use that in \<open>simp add: binAgg_fold binAgg_init\<close>)
  then have "map (binStatOf (binAgg (fold addPoint ?evs (dailyInit ?bins)))) ?bins =
     map (\<lambda>b. binStatOf
            [lab b \<mapsto> fold aggAddFill (filter (\<lambda>p. Bin p = lab b) ?evs) agg0] b) ?bins"
    by simp
  then show ?thesis
    unfolding Data_analyzeWith
    by (simp add: len analyzeWith_def Let_def dailyLoop_fold)
qed

text \<open>What \<^verbatim>\<open>outBins\<close> reports for a bin, from the accumulator of the bin.\<close>

lemma binStatOf_Some:
  "binStatOf [lab b \<mapsto> a] b =
     (if count a = 0
      then \<lparr>BinStat.Label = lab b, BinStat.Count = 0, BinStat.ContinuationRate = 0,
            GapFillRate = 0, BinStat.FadeAvg = 0, BinStat.FollowAvg = 0,
            BinStat.Recommendation = []\<rparr>
      else \<lparr>BinStat.Label = lab b, BinStat.Count = count a,
            BinStat.ContinuationRate = round1 (of_int (cont a) / of_int (count a) * 100),
            GapFillRate = round1 (of_int (filled a) / of_int (count a) * 100),
            BinStat.FadeAvg = round3 (sumFade a / of_int (count a)),
            BinStat.FollowAvg = round3 (sumFollow a / of_int (count a)),
            BinStat.Recommendation =
              (if of_int (cont a) / of_int (count a) * 100 > (60::real) then ''FOLLOW''
               else if of_int (cont a) / of_int (count a) * 100 < (40::real) then ''FADE''
               else ''NEUTRAL'')\<rparr>)"
  by (simp add: binStatOf_def Let_def)

text \<open>
  Claim C1 fails on the code at a gap of 99 percent or more.  For a prior close of 100 and
  an open at 250 the event has an absolute gap of 150, which is above the effective minimum
  \<open>max 0.3 0.1\<close>; \<^verbatim>\<open>labelFor\<close> finds no bin for it, because the last bin ends at 99, and
  labels it \<^verbatim>\<open>other\<close>.  The event is counted in the summary (one session) and in no bin.
\<close>

theorem C1_gap_above_99_is_other:
  "map gapOf (Data (fst (analyzeDaily jan2024 bigGapBars 0.3 3 ''AAPL''))) = [150] \<and>
   max 0.3 0.1 \<le> \<bar>150 :: real\<bar> \<and>
   labelFor \<bar>150\<bar> (defaultBins jan2024 0.3) = ''other'' \<and>
   map Bin (Data (fst (analyzeDaily jan2024 bigGapBars 0.3 3 ''AAPL''))) = [''other''] \<and>
   Summary.Sessions (Summary (fst (analyzeDaily jan2024 bigGapBars 0.3 3 ''AAPL''))) = 1 \<and>
   map BinStat.Count (Bins (fst (analyzeDaily jan2024 bigGapBars 0.3 3 ''AAPL''))) = [0, 0, 0, 0]"
  by code_simp

section \<open>The loop of the intraday pass as a fold over the points\<close>

lemma body15_eq:
  "body15 G m p s = (point15 G m p, step15 G m p s)"
proof -
  let ?mins = "case m (Date p) of None \<Rightarrow> [] | Some bs \<Rightarrow> bs"
  let ?rth0 = "filter (\<lambda>b. nyHour G (barT b) = 9 \<and> nyMinute G (barT b) \<ge> 30
                                \<and> nyMinute G (barT b) \<le> 44) ?mins"
  let ?rth = "if length ?rth0 = 0
              then filter (\<lambda>b. nyHour G (barT b) = 9 \<and> nyMinute G (barT b) \<le> 45) ?mins
              else ?rth0"
  let ?found = "case find (\<lambda>b. nyMinute G (barT b) = 30) ?rth of
                         None \<Rightarrow> 0 | Some b \<Rightarrow> barO b"
  let ?open = "if ?found = 0 then Open p else ?found"
  consider (nomins) "length ?mins = 0"
    | (north) "\<not> length ?mins = 0" "length ?rth = 0"
    | (noopen) "\<not> length ?mins = 0" "\<not> length ?rth = 0" "?open \<le> 0"
    | (run) "\<not> length ?mins = 0" "\<not> length ?rth = 0" "\<not> ?open \<le> 0"
    by blast
  then show ?thesis
  proof cases
    case nomins
    have "body15 G m p s = (p, s)"
      unfolding body15_def Let_def by (simp only: nomins if_True simp_thms)
    moreover have "snap15 G m p = None"
      unfolding snap15_def Let_def by (simp only: nomins if_True simp_thms)
    ultimately show ?thesis by (simp add: point15_def step15_def)
  next
    case north
    have "body15 G m p s = (p, s)"
      unfolding body15_def Let_def by (simp only: north if_True if_False simp_thms)
    moreover have "snap15 G m p = None"
      unfolding snap15_def Let_def by (simp only: north if_True if_False simp_thms)
    ultimately show ?thesis by (simp add: point15_def step15_def)
  next
    case noopen
    have "body15 G m p s = (p, s)"
      unfolding body15_def Let_def by (simp only: noopen if_True if_False simp_thms)
    moreover have "snap15 G m p = None"
      unfolding snap15_def Let_def by (simp only: noopen if_True if_False simp_thms)
    ultimately show ?thesis by (simp add: point15_def step15_def)
  next
    case run
    show ?thesis
      unfolding body15_def snap15_def point15_def step15_def Let_def
      apply (simp only: run if_False option.case simp_thms)
      apply (simp add: add15_def agg15Add_def split del: if_split cong: if_cong option.case_cong)
      done
  qed
qed

lemma loop15_eq:
  "loop15 G m pts s = (map (point15 G m) pts, fold (step15 G m) pts s)"
  by (induction pts arbitrary: s) (simp_all add: body15_eq)

lemma snap15_noBars: "noBars m p \<Longrightarrow> snap15 G m p = None"
  unfolding noBars_def snap15_def Let_def
  by (cases "m (Date p)") simp_all

lemma point15_noBars: "noBars m p \<Longrightarrow> point15 G m p = p"
  by (simp add: point15_def snap15_noBars)

lemma step15_noBars: "noBars m p \<Longrightarrow> step15 G m p s = s"
  by (simp add: step15_def snap15_noBars)

lemma point15_daily_fields:
  "(point15 G m p)\<lparr>Ret15mPct := a, FilledBy0945 := b\<rparr> = p\<lparr>Ret15mPct := a, FilledBy0945 := b\<rparr>"
  by (cases "snap15 G m p") (simp_all add: point15_def)

lemma fold_step15_filter:
  "fold (step15 G m) (filter (\<lambda>p. \<not> noBars m p) pts) s = fold (step15 G m) pts s"
  by (induction pts arbitrary: s) (simp_all add: step15_noBars)

lemma sessions15_step15:
  "sessions15 (step15 G m p s) = sessions15 s + (if snap15 G m p \<noteq> None then 1 else 0)"
  by (cases "snap15 G m p") (simp_all add: step15_def add15_def)

lemma sessions15_fold:
  "sessions15 (fold (step15 G m) pts s) =
     sessions15 s + int (length (filter (\<lambda>p. snap15 G m p \<noteq> None) pts))"
  by (induction pts arbitrary: s) (simp_all add: sessions15_step15)

text \<open>The response that \<^verbatim>\<open>analyzeFirst15\<close> leaves, from the final locals of its loop.\<close>

lemma analyzeFirst15_eq:
  "analyzeFirst15 G (Some resp) m =
     (if Data resp = [] then Some resp
      else
        let bins = defaultBins G (MinGap resp);
            s = fold (step15 G m) (Data resp) (init15 bins);
            contRate15 = (if sessions15 s > 0
                          then of_int (contCount15 s) / of_int (sessions15 s) * 100 else 0);
            fadeAvg15 = (if sessions15 s > 0 then fadeSum15 s / of_int (sessions15 s) else 0);
            followAvg15 = (if sessions15 s > 0
                           then followSum15 s / of_int (sessions15 s) else 0);
            fill0945Rate = (if sessions15 s > 0
                            then of_int (filledBy0945Count s) / of_int (sessions15 s) * 100
                            else 0)
        in Some (resp\<lparr>
             Summary15 :=
               \<lparr>Summary15.Sessions = sessions15 s,
                Summary15.ContinuationRate = round1 contRate15,
                Summary15.FadeAvg = round3 fadeAvg15,
                Summary15.FollowAvg = round3 followAvg15,
                Summary15.BestStrategy =
                  (if followAvg15 > fadeAvg15 then ''FOLLOW''
                   else if fadeAvg15 > followAvg15 then ''FADE'' else ''NEUTRAL''),
                Summary15.ExpectedReturn =
                  round3 (if followAvg15 > fadeAvg15 then followAvg15
                          else if fadeAvg15 > followAvg15 then fadeAvg15 else 0),
                Summary15.GapFillBy0945Rate = round1 fill0945Rate\<rparr>,
             Bins15 := map (binStat15Of (binAgg15 s)) bins,
             UpSide15 := sideStat15Of (upAgg15 s),
             DownSide15 := sideStat15Of (downAgg15 s),
             ByDOW15 := (\<lambda>k. map_option dowStat15Of (dowAgg15 s k)),
             Data := map (point15 G m) (Data resp)\<rparr>))"
  by (simp add: analyzeFirst15_def loop15_eq Let_def split del: if_split cong: if_cong)

lemma analyzeFirst15_returns:
  "\<exists>resp'. analyzeFirst15 G (Some resp) m = Some resp'"
  by (simp add: analyzeFirst15_eq Let_def)

lemma analyzeFirst15_frame:
  assumes "analyzeFirst15 G (Some resp) m = Some resp'"
  shows "Success resp' = Success resp" "Error resp' = Error resp" "Ticker resp' = Ticker resp"
    "Years resp' = Years resp" "MinGap resp' = MinGap resp"
    "Summary resp' = Summary resp" "Bins resp' = Bins resp" "ByDOW resp' = ByDOW resp"
    "UpSide resp' = UpSide resp" "DownSide resp' = DownSide resp"
    "CumDates resp' = CumDates resp" "CumFade resp' = CumFade resp"
    "CumFollow resp' = CumFollow resp"
    "Data resp' = map (point15 G m) (Data resp)"
  using assms
  by (auto simp add: analyzeFirst15_eq Let_def split: if_splits)

lemma Data_analyzeDaily_intraday_zero:
  assumes "p \<in> set (Data (fst (analyzeDaily G daily minGap years ticker)))"
  shows "Ret15mPct p = 0" "FilledBy0945 p = 0"
proof -
  from assms obtain i where
    "p = pointOf (sessionDateNYFromDaily G) (sessionWeekdayNYFromDaily G)
           (defaultBins G minGap) (daily ! i) (daily ! Suc i)"
    unfolding analyzeDaily_fst using analyzeWith_origin by blast
  then show "Ret15mPct p = 0" "FilledBy0945 p = 0"
    by (simp_all add: pointOf_simps)
qed

text \<open>
  Claim C7.  Let \<open>resp\<close> be the result of the daily pass and \<open>resp'\<close> what
  \<^verbatim>\<open>analyzeFirst15\<close> leaves of it for the intraday map \<open>m\<close> (the call always returns).
  Every daily field of the response is unchanged, the list of events keeps its length, and
  every event keeps all its daily fields.  An event whose session date has no intraday
  bars in \<open>m\<close> is left exactly as it was, so its 0-15 minute return and its
  filled-by-09:45 flag are still 0.  Such events contribute nothing to the intraday
  accumulators: from any starting state the loop ends in the same state as on the list
  without them, the number of intraday sessions counts only processed events, and as long
  as some event has intraday bars the intraday summary, bins, weekday table and both side
  tables are those of the run without the events that have none.
\<close>

theorem C7_no_intraday_bars_is_skipped:
  assumes "resp = fst (analyzeDaily G daily minGap years ticker)"
  shows "\<exists>resp'. analyzeFirst15 G (Some resp) m = Some resp' \<and>
     Success resp' = Success resp \<and> Error resp' = Error resp \<and>
     Summary resp' = Summary resp \<and> Bins resp' = Bins resp \<and> ByDOW resp' = ByDOW resp \<and>
     UpSide resp' = UpSide resp \<and> DownSide resp' = DownSide resp \<and>
     CumDates resp' = CumDates resp \<and> CumFade resp' = CumFade resp \<and>
     CumFollow resp' = CumFollow resp \<and>
     length (Data resp') = length (Data resp) \<and>
     (\<forall>i<length (Data resp).
        (Data resp' ! i)\<lparr>Ret15mPct := 0, FilledBy0945 := 0\<rparr> = Data resp ! i \<and>
        (noBars m (Data resp ! i) \<longrightarrow>
           Data resp' ! i = Data resp ! i \<and>
           Ret15mPct (Data resp' ! i) = 0 \<and> FilledBy0945 (Data resp' ! i) = 0)) \<and>
     (\<forall>s. snd (loop15 G m (Data resp) s) =
          snd (loop15 G m (filter (\<lambda>p. \<not> noBars m p) (Data resp)) s)) \<and>
     Summary15.Sessions (Summary15 resp') =
       int (length (filter (\<lambda>p. snap15 G m p \<noteq> None) (Data resp))) \<and>
     Summary15.Sessions (Summary15 resp') \<le>
       int (length (filter (\<lambda>p. \<not> noBars m p) (Data resp))) \<and>
     (filter (\<lambda>p. \<not> noBars m p) (Data resp) \<noteq> [] \<longrightarrow>
        (\<exists>resp''.
           analyzeFirst15 G (Some (resp\<lparr>Data := filter (\<lambda>p. \<not> noBars m p) (Data resp)\<rparr>)) m
             = Some resp'' \<and>
           Summary15 resp'' = Summary15 resp' \<and> Bins15 resp'' = Bins15 resp' \<and>
           ByDOW15 resp'' = ByDOW15 resp' \<and> UpSide15 resp'' = UpSide15 resp' \<and>
           DownSide15 resp'' = DownSide15 resp'))"
proof -
  obtain resp' where run: "analyzeFirst15 G (Some resp) m = Some resp'"
    using analyzeFirst15_returns by blast
  note frame = analyzeFirst15_frame[OF run]
  have data: "Data resp' = map (point15 G m) (Data resp)"
    by (rule frame)
  have len: "length (Data resp') = length (Data resp)"
    by (simp add: data)
  have each: "(Data resp' ! i)\<lparr>Ret15mPct := 0, FilledBy0945 := 0\<rparr> = Data resp ! i \<and>
        (noBars m (Data resp ! i) \<longrightarrow>
           Data resp' ! i = Data resp ! i \<and>
           Ret15mPct (Data resp' ! i) = 0 \<and> FilledBy0945 (Data resp' ! i) = 0)"
    if i: "i < length (Data resp)" for i
  proof -
    let ?p = "Data resp ! i"
    from i have "?p \<in> set (Data resp)" by simp
    then have zero: "Ret15mPct ?p = 0" "FilledBy0945 ?p = 0"
      unfolding assms by (rule Data_analyzeDaily_intraday_zero)+
    have p': "Data resp' ! i = point15 G m ?p"
      using i by (simp add: data)
    have "(point15 G m ?p)\<lparr>Ret15mPct := 0, FilledBy0945 := 0\<rparr> =
          ?p\<lparr>Ret15mPct := 0, FilledBy0945 := 0\<rparr>"
      by (rule point15_daily_fields)
    also have "\<dots> = ?p"
      using zero by simp
    finally have 1: "(Data resp' ! i)\<lparr>Ret15mPct := 0, FilledBy0945 := 0\<rparr> = ?p"
      unfolding p' .
    have 2: "Data resp' ! i = ?p \<and> Ret15mPct (Data resp' ! i) = 0 \<and>
             FilledBy0945 (Data resp' ! i) = 0" if "noBars m ?p"
      unfolding p' point15_noBars[OF that] using zero by simp
    from 1 2 show ?thesis by blast
  qed
  have state: "snd (loop15 G m (Data resp) s) =
          snd (loop15 G m (filter (\<lambda>p. \<not> noBars m p) (Data resp)) s)" for s
    by (simp add: loop15_eq fold_step15_filter)
  have sess: "Summary15.Sessions (Summary15 resp') =
       int (length (filter (\<lambda>p. snap15 G m p \<noteq> None) (Data resp)))"
  proof (cases "Data resp = []")
    case True
    with run have "resp' = resp" by (simp add: analyzeFirst15_eq)
    moreover have "Summary15 resp = Summary15_0"
      unfolding assms analyzeDaily_fst
      by (cases "length daily < 2") (simp_all add: analyzeWith_short, simp add: analyzeWith_def Let_def)
    ultimately show ?thesis using True by (simp add: Summary15_0_def)
  next
    case False
    with run show ?thesis
      by (auto simp add: analyzeFirst15_eq Let_def sessions15_fold init15_def)
  qed
  have "length (filter (\<lambda>p. snap15 G m p \<noteq> None) (Data resp)) \<le>
        length (filter (\<lambda>p. \<not> noBars m p) (Data resp))"
  proof -
    have "filter (\<lambda>p. snap15 G m p \<noteq> None) (Data resp) =
          filter (\<lambda>p. snap15 G m p \<noteq> None) (filter (\<lambda>p. \<not> noBars m p) (Data resp))"
      using snap15_noBars[of m _ G] by (auto intro: filter_cong)
    then show ?thesis by (metis length_filter_le)
  qed
  with sess have bound: "Summary15.Sessions (Summary15 resp') \<le>
       int (length (filter (\<lambda>p. \<not> noBars m p) (Data resp)))"
    by simp
  have removed: "\<exists>resp''.
           analyzeFirst15 G (Some (resp\<lparr>Data := filter (\<lambda>p. \<not> noBars m p) (Data resp)\<rparr>)) m
             = Some resp'' \<and>
           Summary15 resp'' = Summary15 resp' \<and> Bins15 resp'' = Bins15 resp' \<and>
           ByDOW15 resp'' = ByDOW15 resp' \<and> UpSide15 resp'' = UpSide15 resp' \<and>
           DownSide15 resp'' = DownSide15 resp'"
    if ne: "filter (\<lambda>p. \<not> noBars m p) (Data resp) \<noteq> []"
  proof -
    from ne have ne': "Data resp \<noteq> []" by auto
    obtain resp'' where run':
      "analyzeFirst15 G (Some (resp\<lparr>Data := filter (\<lambda>p. \<not> noBars m p) (Data resp)\<rparr>)) m
         = Some resp''"
      using analyzeFirst15_returns by blast
    from run ne' have r1: "resp' = the (analyzeFirst15 G (Some resp) m)" by simp
    from run' have r2: "resp'' = the (analyzeFirst15 G
        (Some (resp\<lparr>Data := filter (\<lambda>p. \<not> noBars m p) (Data resp)\<rparr>)) m)" by simp
    have "Summary15 resp'' = Summary15 resp' \<and> Bins15 resp'' = Bins15 resp' \<and>
           ByDOW15 resp'' = ByDOW15 resp' \<and> UpSide15 resp'' = UpSide15 resp' \<and>
           DownSide15 resp'' = DownSide15 resp'"
      unfolding r1 r2 analyzeFirst15_eq
      using ne ne' by (simp add: Let_def fold_step15_filter)
    with run' show ?thesis by blast
  qed
  from run frame(1,2,6-13) len each state sess bound removed show ?thesis
    by blast
qed

lemma demo_intraday_run:
  "length (Data (fst (analyzeDaily jan2024 demoBars 0.3 3 ''AAPL''))) = 2 \<and>
   \<not> noBars demoMinutes (Data (fst (analyzeDaily jan2024 demoBars 0.3 3 ''AAPL'')) ! 0) \<and>
   noBars demoMinutes (Data (fst (analyzeDaily jan2024 demoBars 0.3 3 ''AAPL'')) ! 1) \<and>
   map Ret15mPct (Data (the (analyzeFirst15 jan2024
       (Some (fst (analyzeDaily jan2024 demoBars 0.3 3 ''AAPL''))) demoMinutes))) = [99 / 200, 0]"
  by code_simp

theorem C7_no_intraday_bars_is_skipped_witness:
  "length (Data (fst (analyzeDaily jan2024 demoBars 0.3 3 ''AAPL''))) = 2 \<and>
   \<not> noBars demoMinutes (Data (fst (analyzeDaily jan2024 demoBars 0.3 3 ''AAPL'')) ! 0) \<and>
   noBars demoMinutes (Data (fst (analyzeDaily jan2024 demoBars 0.3 3 ''AAPL'')) ! 1) \<and>
   map Ret15mPct (Data (the (analyzeFirst15 jan2024
       (Some (fst (analyzeDaily jan2024 demoBars 0.3 3 ''AAPL''))) demoMinutes))) = [99 / 200, 0] \<and>
   Data (the (analyzeFirst15 jan2024
       (Some (fst (analyzeDaily jan2024 demoBars 0.3 3 ''AAPL''))) demoMinutes)) ! 1 =
     Data (fst (analyzeDaily jan2024 demoBars 0.3 3 ''AAPL'')) ! 1 \<and>
   Summary (the (analyzeFirst15 jan2024
       (Some (fst (analyzeDaily jan2024 demoBars 0.3 3 ''AAPL''))) demoMinutes)) =
     Summary (fst (analyzeDaily jan2024 demoBars 0.3 3 ''AAPL'')) \<and>
   Summary15.Sessions (Summary15 (the (analyzeFirst15 jan2024
       (Some (fst (analyzeDaily jan2024 demoBars 0.3 3 ''AAPL''))) demoMinutes))) \<le> 1"
proof -
  let ?resp = "fst (analyzeDaily jan2024 demoBars 0.3 3 ''AAPL'')"
  from C7_no_intraday_bars_is_skipped[OF refl, of jan2024 demoBars "0.3" 3 "''AAPL''" demoMinutes]
  obtain resp' where run: "analyzeFirst15 jan2024 (Some ?resp) demoMinutes = Some resp'"
    and summary: "Summary resp' = Summary ?resp"
    and each: "\<forall>i<length (Data ?resp).
        (Data resp' ! i)\<lparr>Ret15mPct := 0, FilledBy0945 := 0\<rparr> = Data ?resp ! i \<and>
        (noBars demoMinutes (Data ?resp ! i) \<longrightarrow>
           Data resp' ! i = Data ?resp ! i \<and>
           Ret15mPct (Data resp' ! i) = 0 \<and> FilledBy0945 (Data resp' ! i) = 0)"
    and bound: "Summary15.Sessions (Summary15 resp') \<le>
       int (length (filter (\<lambda>p. \<not> noBars demoMinutes p) (Data ?resp)))"
    by blast
  from run have the: "the (analyzeFirst15 jan2024 (Some ?resp) demoMinutes) = resp'"
    by simp
  note ev = demo_intraday_run
  from ev have one: "1 < length (Data ?resp)" and no: "noBars demoMinutes (Data ?resp ! 1)"
    by simp_all
  from each one no have same: "Data resp' ! 1 = Data ?resp ! 1"
    by blast
  have "filter (\<lambda>p. \<not> noBars demoMinutes p) (Data ?resp) = [Data ?resp ! 0]"
  proof -
    from ev obtain a b where ab: "Data ?resp = [a, b]"
      by (auto simp: length_Suc_conv numeral_2_eq_2)
    with ev show ?thesis by simp
  qed
  with bound have "Summary15.Sessions (Summary15 resp') \<le> 1"
    by simp
  with ev same summary show ?thesis
    unfolding the by blast
qed

section \<open>Recommendations of the bins\<close>

lemma length_defaultBins: "length (defaultBins G minGap) = 4"
  by (simp add: defaultBins_def Let_def)

lemma MinGap_analyzeWith:
  "MinGap (analyzeWith dateOf dowOf G daily minGap years ticker) = minGap"
  by (cases "length daily < 2") (simp_all add: analyzeWith_short, simp add: analyzeWith_def Let_def)

lemma daily_bin_stat:
  fixes dateOf dowOf G daily minGap years ticker and i :: nat
  assumes "2 \<le> length daily" and "i < 4"
  defines "r \<equiv> analyzeWith dateOf dowOf G daily minGap years ticker"
  defines "b \<equiv> defaultBins G minGap ! i"
  defines "evs \<equiv> filter (\<lambda>p. Bin p = lab b) (Data r)"
  defines "c \<equiv> length (filter (\<lambda>p. SameDir p = 1) evs)"
  shows "BinStat.Label (Bins r ! i) = lab b"
    and "BinStat.Count (Bins r ! i) = int (length evs)"
    and "evs = [] \<Longrightarrow> BinStat.Recommendation (Bins r ! i) = [] \<and>
                       BinStat.ContinuationRate (Bins r ! i) = 0"
    and "evs \<noteq> [] \<Longrightarrow> BinStat.Recommendation (Bins r ! i) = recOf c (length evs) \<and>
           BinStat.ContinuationRate (Bins r ! i) = round1 (real c / real (length evs) * 100)"
proof -
  let ?a = "fold aggAddFill evs agg0"
  have cnt: "count ?a = int (length evs)" and cont: "cont ?a = int c"
    by (simp_all add: count_fold_aggAddFill cont_fold_aggAddFill agg0_def c_def)
  from assms(2) have i: "i < length (defaultBins G minGap)"
    by (simp add: length_defaultBins)
  have nth: "Bins r ! i = binStatOf [lab b \<mapsto> ?a] b"
    unfolding r_def Bins_analyzeWith[OF assms(1)] using i
    by (simp add: b_def evs_def r_def)
  show "BinStat.Label (Bins r ! i) = lab b"
    unfolding nth binStatOf_Some by simp
  show "BinStat.Count (Bins r ! i) = int (length evs)"
    unfolding nth binStatOf_Some by (simp add: cnt)
  show "BinStat.Recommendation (Bins r ! i) = [] \<and> BinStat.ContinuationRate (Bins r ! i) = 0"
    if "evs = []"
    unfolding nth binStatOf_Some using that cnt by simp
  show "BinStat.Recommendation (Bins r ! i) = recOf c (length evs) \<and>
           BinStat.ContinuationRate (Bins r ! i) = round1 (real c / real (length evs) * 100)"
    if "evs \<noteq> []"
    unfolding nth binStatOf_Some using that
    by (simp add: cnt cont recOf_def split del: if_split cong: if_cong)
qed

text \<open>The accumulator of a bin in the intraday pass.\<close>

lemma binAgg15_step15:
  "binAgg15 (step15 G m p s) k =
     (case snap15 G m p of
        None \<Rightarrow> binAgg15 s k
      | Some x \<Rightarrow>
          if Bin p = k
          then Some (agg15Add p x (case binAgg15 s k of None \<Rightarrow> agg15_0 | Some a \<Rightarrow> a))
          else binAgg15 s k)"
  by (cases "snap15 G m p") (simp_all add: step15_def add15_def)

lemma cont15Of_flag:
  "snap15 G m p = Some x \<Longrightarrow> cont15Of G m p = fst (snd x) \<and> (fst (snd x) = 0 \<or> fst (snd x) = 1)"
  unfolding cont15Of_def snap15_def Let_def
  by (auto split: if_splits)

lemma binAgg15_fold:
  assumes "binAgg15 s k = Some a0"
  shows "\<exists>a. binAgg15 (fold (step15 G m) pts s) k = Some a \<and>
     agg15.count a = agg15.count a0 +
        int (length (filter (\<lambda>p. Bin p = k \<and> snap15 G m p \<noteq> None) pts)) \<and>
     agg15.cont a = agg15.cont a0 +
        int (length (filter (\<lambda>p. Bin p = k \<and> cont15Of G m p = 1) pts))"
  using assms
proof (induction pts arbitrary: s a0)
  case Nil
  then show ?case by simp
next
  case (Cons p pts)
  show ?case
  proof (cases "snap15 G m p")
    case None
    then have s': "binAgg15 (step15 G m p s) k = Some a0" and c0: "cont15Of G m p = 0"
      using Cons.prems by (simp_all add: binAgg15_step15 cont15Of_def)
    from Cons.IH[OF s'] None c0 show ?thesis by (simp del: not_None_eq)
  next
    case (Some x)
    note flag = cont15Of_flag[OF Some]
    show ?thesis
    proof (cases "Bin p = k")
      case True
      with Some Cons.prems have s': "binAgg15 (step15 G m p s) k = Some (agg15Add p x a0)"
        by (simp add: binAgg15_step15)
      have 1: "agg15.count (agg15Add p x a0) = agg15.count a0 + 1"
        and 2: "agg15.cont (agg15Add p x a0) =
                agg15.cont a0 + (if cont15Of G m p = 1 then 1 else 0)"
        using flag by (simp_all add: agg15Add_def)
      from Cons.IH[OF s'] show ?thesis
        unfolding 1 2 using True Some by (auto simp del: not_None_eq)
    next
      case False
      with Some Cons.prems have s': "binAgg15 (step15 G m p s) k = Some a0"
        by (simp add: binAgg15_step15)
      from Cons.IH[OF s'] False show ?thesis by (simp del: not_None_eq)
    qed
  qed
qed

lemma binAgg15_init:
  "binAgg15 (init15 bins) k = (if k \<in> set (map lab bins) then Some agg15_0 else None)"
  by (simp add: init15_def fold_upd_const)

lemma binStat15Of_Some:
  assumes "bagg (lab b) = Some a"
  shows "BinStat15.Label (binStat15Of bagg b) = lab b"
    and "BinStat15.Count (binStat15Of bagg b) = agg15.count a"
    and "agg15.count a = 0 \<Longrightarrow> BinStat15.Recommendation (binStat15Of bagg b) = [] \<and>
           BinStat15.ContinuationRate (binStat15Of bagg b) = 0"
    and "agg15.count a \<noteq> 0 \<Longrightarrow>
           BinStat15.Recommendation (binStat15Of bagg b) =
             (if of_int (agg15.cont a) / of_int (agg15.count a) * 100 > (60::real) then ''FOLLOW''
              else if of_int (agg15.cont a) / of_int (agg15.count a) * 100 < (40::real)
              then ''FADE'' else ''NEUTRAL'') \<and>
           BinStat15.ContinuationRate (binStat15Of bagg b) =
             round1 (of_int (agg15.cont a) / of_int (agg15.count a) * 100)"
  using assms by (simp_all add: binStat15Of_def Let_def)

lemma recOf_thresholds:
  "recOf c n = ''FOLLOW'' \<longleftrightarrow> real c / real n * 100 > 60"
  "recOf c n = ''FADE'' \<longleftrightarrow> \<not> real c / real n * 100 > 60 \<and> real c / real n * 100 < 40"
  "recOf c n = ''NEUTRAL'' \<longleftrightarrow> 40 \<le> real c / real n * 100 \<and> real c / real n * 100 \<le> 60"
  by (auto simp add: recOf_def)

text \<open>
  Claim C4, as the code has it.  Let \<open>resp\<close> be the result of the daily pass on at least
  two bars, with at least one event, and \<open>resp'\<close> what the intraday pass leaves of it.  For
  each of the four bins \<open>b\<close> (index \<open>i\<close>), the daily entry counts the events labelled \<open>b\<close>
  and the intraday entry counts those of them that the intraday pass processed.  A bin with
  no event has the empty recommendation (and a reported rate of 0).  A bin with \<open>n > 0\<close>
  events, \<open>c\<close> of them continuations (to the close for the daily entry, to 09:45 for the
  intraday entry), has the recommendation \<open>recOf c n\<close>, which is \<^verbatim>\<open>FOLLOW\<close> exactly when the
  unrounded rate \<open>c / n * 100\<close> is above 60, \<^verbatim>\<open>FADE\<close> exactly when it is below 40, and
  \<^verbatim>\<open>NEUTRAL\<close> exactly when it lies between 40 and 60, both included.
\<close>

theorem C4_bin_recommendations:
  fixes G daily minGap years ticker m and i :: nat
  assumes "2 \<le> length daily"
    and "resp = fst (analyzeDaily G daily minGap years ticker)"
    and "Data resp \<noteq> []"
    and "analyzeFirst15 G (Some resp) m = Some resp'"
    and "i < 4"
  defines "b \<equiv> defaultBins G minGap ! i"
  defines "evs \<equiv> filter (\<lambda>p. Bin p = lab b) (Data resp)"
  defines "c \<equiv> length (filter (\<lambda>p. SameDir p = 1) evs)"
  defines "evs15 \<equiv> filter (\<lambda>p. Bin p = lab b \<and> snap15 G m p \<noteq> None) (Data resp)"
  defines "c15 \<equiv> length (filter (\<lambda>p. Bin p = lab b \<and> cont15Of G m p = 1) (Data resp))"
  shows "BinStat.Label (Bins resp ! i) = lab b \<and>
         BinStat.Count (Bins resp ! i) = int (length evs) \<and>
         (evs = [] \<longrightarrow> BinStat.Recommendation (Bins resp ! i) = [] \<and>
                       BinStat.ContinuationRate (Bins resp ! i) = 0) \<and>
         (evs \<noteq> [] \<longrightarrow> BinStat.Recommendation (Bins resp ! i) = recOf c (length evs) \<and>
            BinStat.ContinuationRate (Bins resp ! i) = round1 (real c / real (length evs) * 100)) \<and>
         BinStat15.Label (Bins15 resp' ! i) = lab b \<and>
         BinStat15.Count (Bins15 resp' ! i) = int (length evs15) \<and>
         (evs15 = [] \<longrightarrow> BinStat15.Recommendation (Bins15 resp' ! i) = [] \<and>
                         BinStat15.ContinuationRate (Bins15 resp' ! i) = 0) \<and>
         (evs15 \<noteq> [] \<longrightarrow> BinStat15.Recommendation (Bins15 resp' ! i) = recOf c15 (length evs15) \<and>
            BinStat15.ContinuationRate (Bins15 resp' ! i) =
              round1 (real c15 / real (length evs15) * 100)) \<and>
         (\<forall>c n. (recOf c n = ''FOLLOW'' \<longleftrightarrow> real c / real n * 100 > 60) \<and>
                (recOf c n = ''FADE'' \<longleftrightarrow> real c / real n * 100 < 40) \<and>
                (recOf c n = ''NEUTRAL'' \<longleftrightarrow>
                   40 \<le> real c / real n * 100 \<and> real c / real n * 100 \<le> 60))"
proof -
  let ?bins = "defaultBins G minGap"
  have resp: "resp = analyzeWith (sessionDateNYFromDaily G) (sessionWeekdayNYFromDaily G) G
                       daily minGap years ticker"
    unfolding assms(2) by (rule analyzeDaily_fst)
  note d = daily_bin_stat[OF assms(1) assms(5), where dateOf = "sessionDateNYFromDaily G"
      and dowOf = "sessionWeekdayNYFromDaily G" and G = G and minGap = minGap
      and years = years and ticker = ticker, folded resp, folded b_def,
      folded evs_def, folded c_def]
  have daily: "BinStat.Label (Bins resp ! i) = lab b \<and>
         BinStat.Count (Bins resp ! i) = int (length evs) \<and>
         (evs = [] \<longrightarrow> BinStat.Recommendation (Bins resp ! i) = [] \<and>
                       BinStat.ContinuationRate (Bins resp ! i) = 0) \<and>
         (evs \<noteq> [] \<longrightarrow> BinStat.Recommendation (Bins resp ! i) = recOf c (length evs) \<and>
            BinStat.ContinuationRate (Bins resp ! i) = round1 (real c / real (length evs) * 100))"
    using d by blast
  have i: "i < length ?bins" "b \<in> set ?bins"
    using assms(5) by (simp_all add: length_defaultBins b_def)
  have mg: "MinGap resp = minGap"
    unfolding resp by (rule MinGap_analyzeWith)
  let ?s = "fold (step15 G m) (Data resp) (init15 ?bins)"
  have init: "binAgg15 (init15 ?bins) (lab b) = Some agg15_0"
    using i(2) by (simp add: binAgg15_init)
  from binAgg15_fold[OF init, of G m "Data resp"] obtain a where a:
    "binAgg15 ?s (lab b) = Some a"
    "agg15.count a = int (length evs15)" "agg15.cont a = int c15"
    by (auto simp: agg15_0_def evs15_def c15_def)
  have bins15: "Bins15 resp' = map (binStat15Of (binAgg15 ?s)) ?bins"
    using assms(3,4) by (auto simp add: analyzeFirst15_eq Let_def mg)
  have nth: "Bins15 resp' ! i = binStat15Of (binAgg15 ?s) b"
    unfolding bins15 using i(1) by (simp add: b_def)
  note s = binStat15Of_Some[where bagg = "binAgg15 ?s" and b = b and a = a, OF a(1)]
  have intraday: "BinStat15.Label (Bins15 resp' ! i) = lab b \<and>
         BinStat15.Count (Bins15 resp' ! i) = int (length evs15) \<and>
         (evs15 = [] \<longrightarrow> BinStat15.Recommendation (Bins15 resp' ! i) = [] \<and>
                         BinStat15.ContinuationRate (Bins15 resp' ! i) = 0) \<and>
         (evs15 \<noteq> [] \<longrightarrow> BinStat15.Recommendation (Bins15 resp' ! i) = recOf c15 (length evs15) \<and>
            BinStat15.ContinuationRate (Bins15 resp' ! i) =
              round1 (real c15 / real (length evs15) * 100))"
  proof (cases "evs15 = []")
    case True
    then have "agg15.count a = 0" by (simp add: a(2))
    from s(1,2) s(3)[OF this] True show ?thesis
      unfolding nth by (simp add: a(2))
  next
    case False
    then have "agg15.count a \<noteq> 0" by (simp add: a(2))
    from s(1,2) s(4)[OF this] False show ?thesis
      unfolding nth by (simp add: a(2,3) recOf_def split del: if_split cong: if_cong)
  qed
  have thr: "(recOf c n = ''FOLLOW'' \<longleftrightarrow> real c / real n * 100 > 60) \<and>
                (recOf c n = ''FADE'' \<longleftrightarrow> real c / real n * 100 < 40) \<and>
                (recOf c n = ''NEUTRAL'' \<longleftrightarrow>
                   40 \<le> real c / real n * 100 \<and> real c / real n * 100 \<le> 60)" for c n
    using recOf_thresholds[of c n] by auto
  from daily intraday thr show ?thesis by blast
qed

lemma length_filter_via_map:
  "length (filter (\<lambda>p. Q (f p)) xs) = length (filter Q (map f xs))"
  by (induction xs) simp_all

lemma fiveGap_profile:
  "map (\<lambda>p. (Bin p = lab (defaultBins jan2024 0.3 ! 0),
              Bin p = lab (defaultBins jan2024 0.3 ! 2), SameDir p,
              snap15 jan2024 fiveGapMinutes p \<noteq> None, cont15Of jan2024 fiveGapMinutes p))
     (Data (fst (analyzeDaily jan2024 fiveGapBars 0.3 3 ''AAPL''))) =
   [(False, True, 1, False, 0), (False, True, 1, False, 0), (False, True, 1, True, 1),
    (False, True, 0, False, 0), (False, True, 0, False, 0)]"
  unfolding analyzeDaily_fst Data_analyzeWith by code_simp

lemma fiveGap_counts:
  "filter (\<lambda>p. Bin p = lab (defaultBins jan2024 0.3 ! 0))
     (Data (fst (analyzeDaily jan2024 fiveGapBars 0.3 3 ''AAPL''))) = []"
  "length (filter (\<lambda>p. Bin p = lab (defaultBins jan2024 0.3 ! 2))
     (Data (fst (analyzeDaily jan2024 fiveGapBars 0.3 3 ''AAPL'')))) = 5"
  "length (filter (\<lambda>p. SameDir p = 1) (filter (\<lambda>p. Bin p = lab (defaultBins jan2024 0.3 ! 2))
     (Data (fst (analyzeDaily jan2024 fiveGapBars 0.3 3 ''AAPL''))))) = 3"
  "length (filter (\<lambda>p. Bin p = lab (defaultBins jan2024 0.3 ! 2)
                      \<and> snap15 jan2024 fiveGapMinutes p \<noteq> None)
     (Data (fst (analyzeDaily jan2024 fiveGapBars 0.3 3 ''AAPL'')))) = 1"
  "length (filter (\<lambda>p. Bin p = lab (defaultBins jan2024 0.3 ! 2)
                      \<and> cont15Of jan2024 fiveGapMinutes p = 1)
     (Data (fst (analyzeDaily jan2024 fiveGapBars 0.3 3 ''AAPL'')))) = 1"
proof -
  let ?f = "\<lambda>p. (Bin p = lab (defaultBins jan2024 0.3 ! 0),
              Bin p = lab (defaultBins jan2024 0.3 ! 2), SameDir p,
              snap15 jan2024 fiveGapMinutes p \<noteq> None, cont15Of jan2024 fiveGapMinutes p)"
  let ?D = "Data (fst (analyzeDaily jan2024 fiveGapBars 0.3 3 ''AAPL''))"
  have "length (filter (\<lambda>p. fst (?f p)) ?D) = 0"
    unfolding length_filter_via_map[of fst ?f] fiveGap_profile by simp
  then show "filter (\<lambda>p. Bin p = lab (defaultBins jan2024 0.3 ! 0)) ?D = []"
    by simp
  have "length (filter (\<lambda>p. fst (snd (?f p))) ?D) = 5"
    unfolding length_filter_via_map[of "\<lambda>x. fst (snd x)" ?f] fiveGap_profile by simp
  then show "length (filter (\<lambda>p. Bin p = lab (defaultBins jan2024 0.3 ! 2)) ?D) = 5"
    by simp
  have "length (filter (\<lambda>p. (\<lambda>x. fst (snd (snd x)) = 1 \<and> fst (snd x)) (?f p)) ?D) = 3"
    unfolding length_filter_via_map[of "\<lambda>x. fst (snd (snd x)) = 1 \<and> fst (snd x)" ?f]
      fiveGap_profile by simp
  then show "length (filter (\<lambda>p. SameDir p = 1)
      (filter (\<lambda>p. Bin p = lab (defaultBins jan2024 0.3 ! 2)) ?D)) = 3"
    by (simp add: conj_commute)
  have "length (filter (\<lambda>p. (\<lambda>x. fst (snd x) \<and> fst (snd (snd (snd x)))) (?f p)) ?D) = 1"
    unfolding length_filter_via_map[of "\<lambda>x. fst (snd x) \<and> fst (snd (snd (snd x)))" ?f]
      fiveGap_profile by simp
  then show "length (filter (\<lambda>p. Bin p = lab (defaultBins jan2024 0.3 ! 2)
                      \<and> snap15 jan2024 fiveGapMinutes p \<noteq> None) ?D) = 1"
    by (simp del: not_None_eq)
  have "length (filter (\<lambda>p. (\<lambda>x. fst (snd x) \<and> snd (snd (snd (snd x))) = 1) (?f p)) ?D) = 1"
    unfolding length_filter_via_map[of "\<lambda>x. fst (snd x) \<and> snd (snd (snd (snd x))) = 1" ?f]
      fiveGap_profile by simp
  then show "length (filter (\<lambda>p. Bin p = lab (defaultBins jan2024 0.3 ! 2)
                      \<and> cont15Of jan2024 fiveGapMinutes p = 1) ?D) = 1"
    by simp
qed

text \<open>
  An empty bin has no recommendation at all: in the run on six bars with five gaps of
  1.2 percent the first bin has no event; its reported continuation rate is 0 (below 40),
  and its recommendation is the empty string, neither \<^verbatim>\<open>FADE\<close> nor \<^verbatim>\<open>NEUTRAL\<close>.
\<close>

theorem C4_empty_bin_counterexample:
  "BinStat.Count (Bins (fst (analyzeDaily jan2024 fiveGapBars 0.3 3 ''AAPL'')) ! 0) = 0 \<and>
   BinStat.ContinuationRate (Bins (fst (analyzeDaily jan2024 fiveGapBars 0.3 3 ''AAPL'')) ! 0) = 0 \<and>
   BinStat.Recommendation (Bins (fst (analyzeDaily jan2024 fiveGapBars 0.3 3 ''AAPL'')) ! 0) = [] \<and>
   BinStat.Recommendation (Bins (fst (analyzeDaily jan2024 fiveGapBars 0.3 3 ''AAPL'')) ! 0)
     \<noteq> ''FADE'' \<and>
   BinStat.Recommendation (Bins (fst (analyzeDaily jan2024 fiveGapBars 0.3 3 ''AAPL'')) ! 0)
     \<noteq> ''NEUTRAL''"
proof -
  have len: "2 \<le> length fiveGapBars"
    by (simp add: fiveGapBars_def)
  have i: "(0::nat) < 4" by simp
  note d = daily_bin_stat[OF len i, where dateOf = "sessionDateNYFromDaily jan2024"
      and dowOf = "sessionWeekdayNYFromDaily jan2024" and G = jan2024 and minGap = "0.3"
      and years = 3 and ticker = "''AAPL''", folded analyzeDaily_fst, unfolded fiveGap_counts]
  from d(2) d(3) show ?thesis by simp
qed

theorem C4_bin_recommendations_witness:
  "2 \<le> length fiveGapBars \<and>
   Data (fst (analyzeDaily jan2024 fiveGapBars 0.3 3 ''AAPL'')) \<noteq> [] \<and>
   BinStat.Count (Bins (fst (analyzeDaily jan2024 fiveGapBars 0.3 3 ''AAPL'')) ! 2) = 5 \<and>
   BinStat.ContinuationRate (Bins (fst (analyzeDaily jan2024 fiveGapBars 0.3 3 ''AAPL'')) ! 2)
     = 60 \<and>
   BinStat.Recommendation (Bins (fst (analyzeDaily jan2024 fiveGapBars 0.3 3 ''AAPL'')) ! 2)
     = ''NEUTRAL'' \<and>
   BinStat15.Count (Bins15 (the (analyzeFirst15 jan2024
       (Some (fst (analyzeDaily jan2024 fiveGapBars 0.3 3 ''AAPL''))) fiveGapMinutes)) ! 2) = 1 \<and>
   BinStat15.Recommendation (Bins15 (the (analyzeFirst15 jan2024
       (Some (fst (analyzeDaily jan2024 fiveGapBars 0.3 3 ''AAPL''))) fiveGapMinutes)) ! 2)
     = ''FOLLOW''"
proof -
  let ?r = "fst (analyzeDaily jan2024 fiveGapBars 0.3 3 ''AAPL'')"
  let ?r' = "the (analyzeFirst15 jan2024 (Some ?r) fiveGapMinutes)"
  have len: "2 \<le> length fiveGapBars"
    by (simp add: fiveGapBars_def)
  have ne: "Data ?r \<noteq> []"
    using fiveGap_counts(2) by auto
  have run: "analyzeFirst15 jan2024 (Some ?r) fiveGapMinutes = Some ?r'"
    using analyzeFirst15_returns[of jan2024 ?r fiveGapMinutes] by auto
  have i: "(2::nat) < 4" by simp
  note th = C4_bin_recommendations[OF len refl ne run i, unfolded fiveGap_counts]
  have r1: "round1 (real 3 / real 5 * 100) = 60"
    by (simp add: round1_def math_Round_def)
  have r2: "recOf 3 5 = ''NEUTRAL''" "recOf 1 1 = ''FOLLOW''"
    by (simp_all add: recOf_def)
  have e1: "filter (\<lambda>p. Bin p = lab (defaultBins jan2024 0.3 ! 2)) (Data ?r) \<noteq> []"
    using fiveGap_counts(2) by auto
  have e2: "filter (\<lambda>p. Bin p = lab (defaultBins jan2024 0.3 ! 2)
                      \<and> snap15 jan2024 fiveGapMinutes p \<noteq> None) (Data ?r) \<noteq> []"
    using fiveGap_counts(4) by auto
  from th e1 e2 have
    "BinStat.Count (Bins ?r ! 2) = 5"
    "BinStat.ContinuationRate (Bins ?r ! 2) = round1 (real 3 / real 5 * 100)"
    "BinStat.Recommendation (Bins ?r ! 2) = recOf 3 5"
    "BinStat15.Count (Bins15 ?r' ! 2) = 1"
    "BinStat15.Recommendation (Bins15 ?r' ! 2) = recOf 1 1"
    by simp_all
  with len ne r1 r2 show ?thesis by simp
qed

section \<open>The bin counts add up to the events that have a bin\<close>

lemma length_filter_disj:
  "(\<And>x. x \<in> set xs \<Longrightarrow> \<not> (P x \<and> Q x)) \<Longrightarrow>
   length (filter (\<lambda>x. P x \<or> Q x) xs) = length (filter P xs) + length (filter Q xs)"
  by (induction xs) auto

lemma sum_label_counts:
  "distinct ls \<Longrightarrow>
   (\<Sum>l\<leftarrow>ls. int (length (filter (\<lambda>p. g p = l) D))) =
     int (length (filter (\<lambda>p. g p \<in> set ls) D))"
proof (induction ls)
  case Nil
  show ?case by simp
next
  case (Cons l ls)
  then have d: "distinct ls" and l: "l \<notin> set ls" by simp_all
  have "length (filter (\<lambda>p. g p = l \<or> g p \<in> set ls) D) =
        length (filter (\<lambda>p. g p = l) D) + length (filter (\<lambda>p. g p \<in> set ls) D)"
    by (rule length_filter_disj) (use l in auto)
  then show ?case
    by (simp add: Cons.IH[OF d])
qed

lemma Count_binStatOf_Some: "BinStat.Count (binStatOf [lab b \<mapsto> a] b) = count a"
  by (simp add: binStatOf_Some)

lemma Bin_eventsOf:
  "p \<in> set (Data (analyzeWith dateOf dowOf G daily minGap years ticker)) \<Longrightarrow>
   Bin p = labelFor \<bar>gapOf p\<bar> (defaultBins G minGap)"
proof -
  assume "p \<in> set (Data (analyzeWith dateOf dowOf G daily minGap years ticker))"
  then obtain i where
    p: "p = pointOf dateOf dowOf (defaultBins G minGap) (daily ! i) (daily ! Suc i)"
    using analyzeWith_origin by blast
  show ?thesis unfolding p by (rule pointOf_flags)
qed

text \<open>
  For at least two bars, the counts of the four bins add up to the number of events whose
  label is not \<^verbatim>\<open>other\<close>; lemma \<open>labelFor_defaultBins\<close> says which absolute gaps have a bin.
\<close>

lemma Bins_count_sum:
  fixes dateOf dowOf G daily minGap years ticker
  assumes "2 \<le> length daily"
  defines "r \<equiv> analyzeWith dateOf dowOf G daily minGap years ticker"
  shows "sum_list (map BinStat.Count (Bins r)) =
         int (length (filter (\<lambda>p. Bin p \<noteq> ''other'') (Data r)))"
proof -
  let ?bins = "defaultBins G minGap"
  have "sum_list (map BinStat.Count (Bins r)) =
        (\<Sum>b\<leftarrow>?bins. int (length (filter (\<lambda>p. Bin p = lab b) (Data r))))"
    unfolding r_def Bins_analyzeWith[OF assms(1)]
    by (simp add: comp_def Count_binStatOf_Some count_fold_aggAddFill agg0_def)
  also have "\<dots> = (\<Sum>l\<leftarrow>map lab ?bins. int (length (filter (\<lambda>p. Bin p = l) (Data r))))"
    by (simp add: comp_def)
  also have "\<dots> = int (length (filter (\<lambda>p. Bin p \<in> set (map lab ?bins)) (Data r)))"
    by (rule sum_label_counts) (rule distinct_labs)
  also have "filter (\<lambda>p. Bin p \<in> set (map lab ?bins)) (Data r) =
             filter (\<lambda>p. Bin p \<noteq> ''other'') (Data r)"
  proof (rule filter_cong[OF refl])
    fix p
    assume "p \<in> set (Data r)"
    then have "Bin p = labelFor \<bar>gapOf p\<bar> ?bins"
      unfolding r_def by (rule Bin_eventsOf)
    then have "Bin p \<in> insert ''other'' (set (map lab ?bins))"
      using labelFor_range[of "\<bar>gapOf p\<bar>" ?bins] by simp
    with other_not_lab[of G minGap]
    show "(Bin p \<in> set (map lab ?bins)) = (Bin p \<noteq> ''other'')"
      by (metis insertE)
  qed
  finally show ?thesis .
qed

end
